theory Spec2Isabelle
  imports Complex_Main "HOL-Library.Multiset"
begin

section \<open>Parameter types and the type-compatibility predicates\<close>

text \<open>
  \<^verbatim>\<open>ParameterType = 'string' | 'number' | 'boolean' | 'object' | 'array'\<close>
  (models/ParameterType.ts).
\<close>

datatype ParameterType = TString | TNumber | TBoolean | TObject | TArray

text \<open>
  \<^verbatim>\<open>ApiExecutionEngine.areTypesCompatibleEnhanced\<close>: the predicate applied at
  flow-execution time by \<^verbatim>\<open>validateTypedConnections\<close>. The chain of early returns
  is kept in the order of the source.
\<close>

definition areTypesCompatibleEnhanced :: "ParameterType \<Rightarrow> ParameterType \<Rightarrow> bool" where
  "areTypesCompatibleEnhanced sourceType targetType =
     (if sourceType = targetType then True
      else if targetType = TString then True
      else if targetType = TNumber \<and> sourceType = TString then True
      else if targetType = TBoolean \<and> sourceType = TString then True
      else if targetType = TObject \<and> (sourceType = TArray \<or> sourceType = TObject) then True
      else False)"

text \<open>
  \<^verbatim>\<open>ConnectionBuilder.areTypesCompatible\<close>: the predicate applied at
  connection-construction time by \<^verbatim>\<open>validateCompatibility\<close>. It has four early
  returns; there is no branch for an object target.
\<close>

definition areTypesCompatible :: "ParameterType \<Rightarrow> ParameterType \<Rightarrow> bool" where
  "areTypesCompatible sourceType targetType =
     (if sourceType = targetType then True
      else if targetType = TString then True
      else if targetType = TNumber \<and> sourceType = TString then True
      else if targetType = TBoolean \<and> sourceType = TString then True
      else False)"

text \<open>The priority rule of the specification, written from its words.\<close>

definition spec_compatible :: "ParameterType \<Rightarrow> ParameterType \<Rightarrow> bool" where
  "spec_compatible s t =
     (s = t \<or> t = TString \<or> (s = TString \<and> t = TNumber) \<or> (s = TString \<and> t = TBoolean)
      \<or> ((s = TArray \<or> s = TObject) \<and> t = TObject))"

section \<open>JavaScript values\<close>

datatype jsnum = Finite real | NaN | PosInfinity | NegInfinity

fun js_less :: "jsnum \<Rightarrow> jsnum \<Rightarrow> bool" where
  "js_less (Finite a) (Finite b) = (a < b)"
| "js_less (Finite a) PosInfinity = True"
| "js_less NegInfinity (Finite b) = True"
| "js_less NegInfinity PosInfinity = True"
| "js_less _ _ = False"

datatype jvalue =
    JUndefined
  | JNull
  | JBool bool
  | JNum jsnum
  | JStr string
  | JArr "jvalue list"
  | JObj "(string \<times> jvalue) list"

definition digits :: string where
  "digits = ''0123456789''"

fun string_of_nat :: "nat \<Rightarrow> string" where
  "string_of_nat n =
     (if n < 10 then [digits ! n]
      else string_of_nat (n div 10) @ [digits ! (n mod 10)])"

declare string_of_nat.simps [simp del]

definition array_index :: "string \<Rightarrow> nat \<Rightarrow> nat option" where
  "array_index key len = find (\<lambda>i. string_of_nat i = key) [0..<len]"

fun js_get :: "jvalue \<Rightarrow> string \<Rightarrow> jvalue" where
  "js_get (JObj kvs) key = (case map_of kvs key of None \<Rightarrow> JUndefined | Some v \<Rightarrow> v)"
| "js_get (JArr xs) key =
     (if key = ''length'' then JNum (Finite (real (length xs)))
      else case array_index key (length xs) of None \<Rightarrow> JUndefined | Some i \<Rightarrow> xs ! i)"
| "js_get (JStr s) key =
     (if key = ''length'' then JNum (Finite (real (length s)))
      else case array_index key (length s) of None \<Rightarrow> JUndefined | Some i \<Rightarrow> JStr [s ! i])"
| "js_get _ key = JUndefined"

fun js_hasOwnProperty :: "jvalue \<Rightarrow> string \<Rightarrow> bool" where
  "js_hasOwnProperty (JObj kvs) key = (key \<in> set (map fst kvs))"
| "js_hasOwnProperty (JArr xs) key = (key = ''length'' \<or> array_index key (length xs) \<noteq> None)"
| "js_hasOwnProperty (JStr s) key = (key = ''length'' \<or> array_index key (length s) \<noteq> None)"
| "js_hasOwnProperty _ key = False"

fun js_keys :: "jvalue \<Rightarrow> string list" where
  "js_keys (JObj kvs) = map fst kvs"
| "js_keys (JArr xs) = map string_of_nat [0..<length xs]"
| "js_keys (JStr s) = map string_of_nat [0..<length s]"
| "js_keys _ = []"

fun js_typeof :: "jvalue \<Rightarrow> string" where
  "js_typeof JUndefined = ''undefined''"
| "js_typeof JNull = ''object''"
| "js_typeof (JBool b) = ''boolean''"
| "js_typeof (JNum n) = ''number''"
| "js_typeof (JStr s) = ''string''"
| "js_typeof (JArr xs) = ''object''"
| "js_typeof (JObj kvs) = ''object''"

record Validation =
  v_min :: "jsnum option"
  v_max :: "jsnum option"
  v_pattern :: "string option"
  v_enum :: "jvalue list option"

datatype ParameterDefinition =
  ParameterDefinition
    (pd_name: string)
    (pd_type: ParameterType)
    (pd_required: bool)
    (pd_defaultValue: jvalue)
    (pd_items: "ParameterDefinition option")
    (pd_properties: "(string \<times> ParameterDefinition) list option")
    (pd_validation: "Validation option")

fun with_name :: "ParameterDefinition \<Rightarrow> string \<Rightarrow> ParameterDefinition" where
  "with_name (ParameterDefinition n t r d i p v) n' = ParameterDefinition n' t r d i p v"


text \<open>
  \<^verbatim>\<open>ValidationResult\<close> (models/SchemaProperty.ts): the error and warning messages
  are the strings the source builds.
\<close>

record ValidationResult =
  isValid :: bool
  errors :: "string list"
  warnings :: "string list"

text \<open>
  A thrown JavaScript error: its class and its \<^verbatim>\<open>message\<close>. The source tests the
  class with \<^verbatim>\<open>instanceof SyntaxError\<close> and the message with
  \<^verbatim>\<open>message.includes\<close>.
\<close>

datatype js_error = Error string | SyntaxError string | TypeError string

fun message :: "js_error \<Rightarrow> string" where
  "message (Error m) = m"
| "message (SyntaxError m) = m"
| "message (TypeError m) = m"

text \<open>
  What the model takes from the JavaScript runtime without modelling it:
  \<^item> \<^verbatim>\<open>RegExp_test p s\<close> is \<^verbatim>\<open>new RegExp(p).test(s)\<close>; \<open>Inl m\<close> when the constructor
    throws a SyntaxError with message \<open>m\<close>;
  \<^item> \<^verbatim>\<open>JSON_parse s\<close> is \<^verbatim>\<open>JSON.parse(s)\<close>; \<open>Inl m\<close> when it throws a SyntaxError;
  \<^item> \<^verbatim>\<open>JSON_stringify v\<close> is \<^verbatim>\<open>JSON.stringify(v)\<close>; \<open>None\<close> when the result is
    \<^verbatim>\<open>undefined\<close>;
  \<^item> \<^verbatim>\<open>js_String v\<close> is the string conversion of template literals and \<^verbatim>\<open>String(v)\<close>;
  \<^item> \<^verbatim>\<open>applyTransformation v t\<close> is the engine's table of named transformations, built
    from runtime conversions (\<^verbatim>\<open>Number\<close>, \<^verbatim>\<open>btoa\<close>, \<^verbatim>\<open>encodeURIComponent\<close>, ...);
    \<open>Inl e\<close> when a conversion throws.
\<close>

record js_runtime =
  RegExp_test :: "string \<Rightarrow> string \<Rightarrow> string + bool"
  JSON_parse :: "string \<Rightarrow> string + jvalue"
  JSON_stringify :: "jvalue \<Rightarrow> string option"
  js_String :: "jvalue \<Rightarrow> string"
  applyTransformation :: "jvalue \<Rightarrow> string \<Rightarrow> js_error + jvalue"

definition apostrophe :: string where
  "apostrophe = [CHR 0x27]"

fun type_name :: "ParameterType \<Rightarrow> string" where
  "type_name TString = ''string''"
| "type_name TNumber = ''number''"
| "type_name TBoolean = ''boolean''"
| "type_name TObject = ''object''"
| "type_name TArray = ''array''"

text \<open>\<^verbatim>\<open>Array.prototype.join\<close> on strings.\<close>

fun js_join :: "string \<Rightarrow> string list \<Rightarrow> string" where
  "js_join sep [] = []"
| "js_join sep [x] = x"
| "js_join sep (x # y # ys) = x @ sep @ js_join sep (y # ys)"

text \<open>
  \<^verbatim>\<open>Array.prototype.join\<close> on values: \<^verbatim>\<open>null\<close> and \<^verbatim>\<open>undefined\<close> elements are
  written as the empty string.
\<close>

definition js_join_values :: "js_runtime \<Rightarrow> string \<Rightarrow> jvalue list \<Rightarrow> string" where
  "js_join_values rt sep xs =
     js_join sep (map (\<lambda>v. if v = JNull \<or> v = JUndefined then [] else js_String rt v) xs)"

subsection \<open>SchemaValidation (utils/SchemaValidation.ts)\<close>

definition isEmpty :: "jvalue \<Rightarrow> bool" where
  "isEmpty v = (v = JNull \<or> v = JUndefined \<or> v = JStr [])"

fun isArray :: "jvalue \<Rightarrow> bool" where
  "isArray (JArr xs) = True"
| "isArray _ = False"

text \<open>\<^verbatim>\<open>!isNaN(value) && isFinite(value)\<close> for a value whose \<^verbatim>\<open>typeof\<close> is number.\<close>

fun isFiniteNumber :: "jvalue \<Rightarrow> bool" where
  "isFiniteNumber (JNum (Finite x)) = True"
| "isFiniteNumber _ = False"

fun validateType :: "jvalue \<Rightarrow> ParameterType \<Rightarrow> bool" where
  "validateType v TString = (js_typeof v = ''string'')"
| "validateType v TNumber = (js_typeof v = ''number'' \<and> isFiniteNumber v)"
| "validateType v TBoolean = (js_typeof v = ''boolean'')"
| "validateType v TArray = isArray v"
| "validateType v TObject = (js_typeof v = ''object'' \<and> v \<noteq> JNull \<and> \<not> isArray v)"

text \<open>
  \<^verbatim>\<open>Array.prototype.includes\<close>: primitives are compared by value; an object or an
  array is compared by identity, and the validated value is never the very object listed
  in the definition.
\<close>

fun js_includes :: "jvalue list \<Rightarrow> jvalue \<Rightarrow> bool" where
  "js_includes xs (JArr ys) = False"
| "js_includes xs (JObj kvs) = False"
| "js_includes xs v = (v \<in> set xs)"

definition quoted :: "string \<Rightarrow> string" where
  "quoted s = apostrophe @ s @ apostrophe"

text \<open>
  \<^verbatim>\<open>validateConstraints\<close> appends to the caller's \<^verbatim>\<open>errors\<close> array; the model returns
  the extended list. It raises only when the pattern is not a regular expression.
\<close>

definition validateConstraints ::
  "js_runtime \<Rightarrow> jvalue \<Rightarrow> ParameterDefinition \<Rightarrow> string list \<Rightarrow> string list
     \<Rightarrow> js_error + (string list \<times> string list)" where
  "validateConstraints rt v definition errs warns =
     (case pd_validation definition of
        None \<Rightarrow> Inr (errs, warns)
      | Some validation \<Rightarrow>
          let errs1 =
                (case v of
                   JNum n \<Rightarrow>
                     (let e1 = (case v_min validation of
                                  Some m \<Rightarrow>
                                    if js_less n m
                                    then errs @ [''Parameter '' @ quoted (pd_name definition)
                                           @ '' value '' @ js_String rt v
                                           @ '' is below minimum '' @ js_String rt (JNum m)]
                                    else errs
                                | None \<Rightarrow> errs)
                      in case v_max validation of
                           Some m \<Rightarrow>
                             if js_less m n
                             then e1 @ [''Parameter '' @ quoted (pd_name definition)
                                    @ '' value '' @ js_String rt v
                                    @ '' is above maximum '' @ js_String rt (JNum m)]
                             else e1
                         | None \<Rightarrow> e1)
                 | _ \<Rightarrow> errs);
              errs2 =
                (case v of
                   JStr s \<Rightarrow>
                     (case v_pattern validation of
                        None \<Rightarrow> Inr errs1
                      | Some p \<Rightarrow>
                          if p = [] then Inr errs1
                          else (case RegExp_test rt p s of
                                  Inl m \<Rightarrow> Inl (SyntaxError m)
                                | Inr matches \<Rightarrow>
                                    Inr (if \<not> matches
                                         then errs1 @ [''Parameter '' @ quoted (pd_name definition)
                                                @ '' value does not match required pattern'']
                                         else errs1)))
                 | _ \<Rightarrow> Inr errs1)
          in case errs2 of
               Inl e \<Rightarrow> Inl e
             | Inr errs3 \<Rightarrow>
                 (case v_enum validation of
                    None \<Rightarrow> Inr (errs3, warns)
                  | Some allowed \<Rightarrow>
                      if \<not> js_includes allowed v
                      then Inr (errs3 @ [''Parameter '' @ quoted (pd_name definition)
                                  @ '' value '' @ quoted (js_String rt v)
                                  @ '' is not in allowed values: ''
                                  @ js_join_values rt '', '' allowed], warns)
                      else Inr (errs3, warns)))"

text \<open>
  \<^verbatim>\<open>validateParameter\<close>, \<^verbatim>\<open>validateObject\<close> and \<^verbatim>\<open>validateArray\<close> call each other.
  The two \<^verbatim>\<open>for\<close> loops are the functions \<open>validateObject_loop\<close> (over
  \<^verbatim>\<open>Object.entries(properties)\<close>) and \<open>validateArray_loop\<close> (over the indices of the
  array).
\<close>

function
  validateParameter :: "js_runtime \<Rightarrow> jvalue \<Rightarrow> ParameterDefinition \<Rightarrow> js_error + ValidationResult"
  and validateObject ::
    "js_runtime \<Rightarrow> jvalue \<Rightarrow> (string \<times> ParameterDefinition) list \<Rightarrow> string list
       \<Rightarrow> string list \<Rightarrow> js_error + (string list \<times> string list)"
  and validateObject_loop ::
    "js_runtime \<Rightarrow> jvalue \<Rightarrow> (string \<times> ParameterDefinition) list \<Rightarrow> string list
       \<Rightarrow> string list \<Rightarrow> js_error + (string list \<times> string list)"
  and validateArray ::
    "js_runtime \<Rightarrow> jvalue \<Rightarrow> ParameterDefinition \<Rightarrow> string list
       \<Rightarrow> string list \<Rightarrow> js_error + (string list \<times> string list)"
  and validateArray_loop ::
    "js_runtime \<Rightarrow> jvalue list \<Rightarrow> ParameterDefinition \<Rightarrow> nat \<Rightarrow> string list
       \<Rightarrow> string list \<Rightarrow> js_error + (string list \<times> string list)"
where
  "validateParameter rt v definition =
     (if pd_required definition \<and> isEmpty v
      then Inr \<lparr>isValid = False,
                errors = [''Required parameter '' @ quoted (pd_name definition)
                          @ '' is missing or empty''],
                warnings = []\<rparr>
      else if isEmpty v \<and> \<not> pd_required definition
      then Inr \<lparr>isValid = True, errors = [], warnings = []\<rparr>
      else
        let errs1 = (if \<not> validateType v (pd_type definition)
                     then [''Parameter '' @ quoted (pd_name definition)
                           @ '' expected type '' @ quoted (type_name (pd_type definition))
                           @ '' but got '' @ quoted (js_typeof v)]
                     else [])
        in case validateConstraints rt v definition errs1 [] of
             Inl e \<Rightarrow> Inl e
           | Inr (errs2, warns2) \<Rightarrow>
               (case (if pd_type definition = TObject \<and> pd_properties definition \<noteq> None
                      then validateObject rt v (the (pd_properties definition)) errs2 warns2
                      else if pd_type definition = TArray \<and> pd_items definition \<noteq> None
                      then validateArray rt v (the (pd_items definition)) errs2 warns2
                      else Inr (errs2, warns2)) of
                  Inl e \<Rightarrow> Inl e
                | Inr (errs3, warns3) \<Rightarrow>
                    Inr \<lparr>isValid = (length errs3 = 0), errors = errs3, warnings = warns3\<rparr>))"
| "validateObject rt v properties errs warns =
     (if js_typeof v \<noteq> ''object'' \<or> v = JNull
      then Inr (errs @ [''Expected object type for nested validation''], warns)
      else validateObject_loop rt v properties errs warns)"
| "validateObject_loop rt v [] errs warns = Inr (errs, warns)"
| "validateObject_loop rt v ((propName, propDef) # entries) errs warns =
     (case validateParameter rt (js_get v propName) propDef of
        Inl e \<Rightarrow> Inl e
      | Inr result \<Rightarrow>
          validateObject_loop rt v entries (errs @ errors result) (warns @ warnings result))"
| "validateArray rt v itemDefinition errs warns =
     (case v of
        JArr xs \<Rightarrow> validateArray_loop rt xs itemDefinition 0 errs warns
      | _ \<Rightarrow> Inr (errs @ [''Expected array type for array validation''], warns))"
| "validateArray_loop rt xs itemDefinition i errs warns =
     (if i < length xs
      then (case validateParameter rt (xs ! i)
                   (with_name itemDefinition
                      (pd_name itemDefinition @ ''['' @ string_of_nat i @ '']'')) of
              Inl e \<Rightarrow> Inl e
            | Inr result \<Rightarrow>
                validateArray_loop rt xs itemDefinition (Suc i)
                  (errs @ errors result) (warns @ warnings result))
      else Inr (errs, warns))"
  by pat_completeness auto

lemma size_with_name: "size (with_name d n) = size d"
  by (cases d) simp

lemma size_items: "pd_items d = Some i \<Longrightarrow> size i < size d"
  by (cases d) simp

lemma size_properties:
  "pd_properties d = Some ps \<Longrightarrow> size_list (size_prod (\<lambda>_. 0) size) ps < size d"
  by (cases d) simp

termination validateParameter
  by (relation "inv_image (less_than <*lex*> less_than)
     (\<lambda>x. case x of
        Inl (Inl (rt, v, d)) \<Rightarrow> (size d, 0)
      | Inl (Inr (rt, v, ps, e, w)) \<Rightarrow> (size_list (size_prod (\<lambda>_. 0) size) ps, length ps + 2)
      | Inr (Inl (rt, v, ps, e, w)) \<Rightarrow> (size_list (size_prod (\<lambda>_. 0) size) ps, length ps + 1)
      | Inr (Inr (Inl (rt, v, d, e, w))) \<Rightarrow>
          (size d, (case v of JArr xs \<Rightarrow> length xs | _ \<Rightarrow> 0) + 2)
      | Inr (Inr (Inr (rt, xs, d, i, e, w))) \<Rightarrow> (size d, length xs - i + 1))")
     (auto simp: size_items size_properties size_with_name)

declare validateParameter.simps [simp del]

text \<open>
  Reading a property of \<^verbatim>\<open>null\<close> or \<^verbatim>\<open>undefined\<close> raises a TypeError, and so does
  \<^verbatim>\<open>Object.keys\<close>.
\<close>

definition js_read :: "jvalue \<Rightarrow> string \<Rightarrow> js_error + jvalue" where
  "js_read v key =
     (if v = JNull then Inl (TypeError (''Cannot read properties of null (reading '' @ quoted key @ '')''))
      else if v = JUndefined
      then Inl (TypeError (''Cannot read properties of undefined (reading '' @ quoted key @ '')''))
      else Inr (js_get v key))"

definition Object_keys :: "jvalue \<Rightarrow> js_error + string list" where
  "Object_keys v =
     (if v = JNull \<or> v = JUndefined
      then Inl (TypeError ''Cannot convert undefined or null to object'')
      else Inr (js_keys v))"

text \<open>The first loop of \<^verbatim>\<open>validateParameters\<close>, over \<^verbatim>\<open>Object.entries(definitions)\<close>.\<close>

fun validateParameters_loop ::
  "js_runtime \<Rightarrow> jvalue \<Rightarrow> (string \<times> ParameterDefinition) list \<Rightarrow> string list \<Rightarrow> string list
     \<Rightarrow> js_error + (string list \<times> string list)" where
  "validateParameters_loop rt vals [] allErrors allWarnings = Inr (allErrors, allWarnings)"
| "validateParameters_loop rt vals ((name, definition) # entries) allErrors allWarnings =
     (case js_read vals name of
        Inl e \<Rightarrow> Inl e
      | Inr v \<Rightarrow>
          (case validateParameter rt v definition of
             Inl e \<Rightarrow> Inl e
           | Inr result \<Rightarrow>
               validateParameters_loop rt vals entries
                 (allErrors @ errors result) (allWarnings @ warnings result)))"

definition validateParameters ::
  "js_runtime \<Rightarrow> jvalue \<Rightarrow> (string \<times> ParameterDefinition) list \<Rightarrow> js_error + ValidationResult" where
  "validateParameters rt vals definitions =
     (case validateParameters_loop rt vals definitions [] [] of
        Inl e \<Rightarrow> Inl e
      | Inr (allErrors, allWarnings) \<Rightarrow>
          (case Object_keys vals of
             Inl e \<Rightarrow> Inl e
           | Inr names \<Rightarrow>
               Inr \<lparr>isValid = (length allErrors = 0),
                    errors = allErrors,
                    warnings = allWarnings
                      @ map (\<lambda>name. ''Unexpected parameter '' @ quoted name @ '' provided'')
                          (filter (\<lambda>name. map_of definitions name = None) names)\<rparr>))"

section \<open>Endpoints and connections\<close>

datatype HttpMethod = GET | POST | PUT | PATCH | DELETE | HEAD | OPTIONS

datatype TargetLocation = LQuery | LBody | LHeader | LPath

text \<open>
  \<^verbatim>\<open>EndpointConnection\<close> (models/EndpointConnection.ts). The optional fields
  \<^verbatim>\<open>transform\<close>, \<^verbatim>\<open>sourceType\<close>, \<^verbatim>\<open>targetType\<close> and \<^verbatim>\<open>validated\<close> are options;
  \<^verbatim>\<open>aiResolvedPath\<close> and \<^verbatim>\<open>createdAt\<close> are read by no modelled function.
\<close>

record EndpointConnection =
  conn_id :: string
  sourceNodeId :: string
  targetNodeId :: string
  sourceField :: string
  targetField :: string
  targetLocation :: TargetLocation
  naturalLanguageMapping :: string
  transform :: "string option"
  sourceType :: "ParameterType option"
  targetType :: "ParameterType option"
  validated :: "bool option"

datatype BodyType = BJson | BForm | BText | BBinary

record BodySchema =
  bs_type :: BodyType
  bs_schema :: "(string \<times> ParameterDefinition) list option"
  bs_content :: jvalue

record ResponseSchema =
  rsp_statusCode :: nat
  rsp_body :: "(string \<times> ParameterDefinition) list option"

record NaturalLanguageMapping =
  nl_input :: string
  nl_resolvedParams :: jvalue
  nl_resolvedBody :: jvalue

text \<open>
  \<^verbatim>\<open>ApiEndpoint\<close> (models/ApiEndpoint.ts), with the fields the modelled functions
  read. A \<^verbatim>\<open>Record<string, T>\<close> is the list of its entries in the order of
  \<^verbatim>\<open>Object.entries\<close>, with distinct keys.
\<close>

record ApiEndpoint =
  ep_id :: string
  ep_name :: string
  ep_method :: HttpMethod
  ep_baseUrl :: string
  ep_path :: string
  ep_queryParams :: "(string \<times> ParameterDefinition) list"
  ep_pathParams :: "(string \<times> ParameterDefinition) list"
  ep_headers :: "(string \<times> string) list"
  ep_body :: "BodySchema option"
  ep_expectedResponse :: "ResponseSchema list"
  ep_naturalLanguageInput :: "string option"
  ep_aiMapping :: "NaturalLanguageMapping option"
  ep_connections :: "EndpointConnection list"

section \<open>Dependency resolver\<close>

text \<open>
  \<^verbatim>\<open>ApiExecutionEngine.sortEndpointsByDependencies\<close>. The closure \<^verbatim>\<open>visit\<close> mutates
  three variables of the enclosing call: the array \<^verbatim>\<open>sorted\<close> and the sets
  \<^verbatim>\<open>visited\<close> and \<^verbatim>\<open>visiting\<close>. They are the state that \<open>visit\<close> takes and returns.
\<close>

record sort_state =
  st_sorted :: "ApiEndpoint list"
  st_visited :: "string set"
  st_visiting :: "string set"

definition circular :: "string \<Rightarrow> js_error" where
  "circular i = Error (''Circular dependency detected involving endpoint: '' @ i)"

text \<open>
  \<open>visit\<close> is the closure, \<open>visit_connections\<close> its loop over
  \<^verbatim>\<open>endpoint.connections\<close>. The first argument bounds the depth of the recursion: the
  result is \<open>None\<close> when the bound is reached, \<open>Some (Inl e)\<close> when the source throws
  \<open>e\<close>, and \<open>Some (Inr st)\<close> when it returns with the state \<open>st\<close>.
\<close>

fun visit ::
    "nat \<Rightarrow> ApiEndpoint list \<Rightarrow> ApiEndpoint \<Rightarrow> sort_state \<Rightarrow> (js_error + sort_state) option"
  and visit_connections ::
    "nat \<Rightarrow> ApiEndpoint list \<Rightarrow> EndpointConnection list \<Rightarrow> sort_state
       \<Rightarrow> (js_error + sort_state) option"
where
  "visit 0 endpoints endpoint st = None"
| "visit (Suc n) endpoints endpoint st =
     (if ep_id endpoint \<in> st_visiting st then Some (Inl (circular (ep_id endpoint)))
      else if ep_id endpoint \<in> st_visited st then Some (Inr st)
      else
        (case visit_connections n endpoints (ep_connections endpoint)
                (st\<lparr>st_visiting := insert (ep_id endpoint) (st_visiting st)\<rparr>) of
           None \<Rightarrow> None
         | Some (Inl e) \<Rightarrow> Some (Inl e)
         | Some (Inr st') \<Rightarrow>
             Some (Inr (st'\<lparr>st_visiting := st_visiting st' - {ep_id endpoint},
                            st_visited := insert (ep_id endpoint) (st_visited st'),
                            st_sorted := st_sorted st' @ [endpoint]\<rparr>))))"
| "visit_connections n endpoints [] st = Some (Inr st)"
| "visit_connections n endpoints (connection # rest) st =
     (case find (\<lambda>ep. ep_id ep = sourceNodeId connection) endpoints of
        None \<Rightarrow> visit_connections n endpoints rest st
      | Some dependency \<Rightarrow>
          (case visit n endpoints dependency st of
             None \<Rightarrow> None
           | Some (Inl e) \<Rightarrow> Some (Inl e)
           | Some (Inr st') \<Rightarrow> visit_connections n endpoints rest st'))"

text \<open>\<^verbatim>\<open>endpoints.forEach(endpoint => visit(endpoint))\<close>.\<close>

fun visit_all ::
  "nat \<Rightarrow> ApiEndpoint list \<Rightarrow> ApiEndpoint list \<Rightarrow> sort_state \<Rightarrow> (js_error + sort_state) option"
where
  "visit_all n endpoints [] st = Some (Inr st)"
| "visit_all n endpoints (endpoint # rest) st =
     (case visit n endpoints endpoint st of
        None \<Rightarrow> None
      | Some (Inl e) \<Rightarrow> Some (Inl e)
      | Some (Inr st') \<Rightarrow> visit_all n endpoints rest st')"

text \<open>
  The recursion of \<open>visit\<close> is never deeper than the number of endpoints, so the bound
  \<open>length endpoints + 1\<close> is never reached (theorem \<open>sortEndpointsByDependencies_returns\<close>).
\<close>

definition sortEndpointsByDependencies ::
  "ApiEndpoint list \<Rightarrow> (js_error + ApiEndpoint list) option" where
  "sortEndpointsByDependencies endpoints =
     (case visit_all (Suc (length endpoints)) endpoints endpoints
             \<lparr>st_sorted = [], st_visited = {}, st_visiting = {}\<rparr> of
        None \<Rightarrow> None
      | Some (Inl e) \<Rightarrow> Some (Inl e)
      | Some (Inr st) \<Rightarrow> Some (Inr (st_sorted st)))"

subsection \<open>The dependency graph\<close>

text \<open>
  The endpoint that \<^verbatim>\<open>endpoints.find(ep => ep.id === connection.sourceNodeId)\<close> returns,
  and the list of those a given endpoint's connections resolve to. A connection whose
  source is not among the endpoints contributes nothing.
\<close>

definition dependency :: "ApiEndpoint list \<Rightarrow> EndpointConnection \<Rightarrow> ApiEndpoint option" where
  "dependency endpoints connection = find (\<lambda>ep. ep_id ep = sourceNodeId connection) endpoints"

definition dependencies :: "ApiEndpoint list \<Rightarrow> ApiEndpoint \<Rightarrow> ApiEndpoint list" where
  "dependencies endpoints endpoint = List.map_filter (dependency endpoints) (ep_connections endpoint)"

text \<open>The edges of the graph: \<open>a\<close> depends on \<open>b\<close>.\<close>

definition depends_on :: "ApiEndpoint list \<Rightarrow> (ApiEndpoint \<times> ApiEndpoint) set" where
  "depends_on endpoints = {(a, b). a \<in> set endpoints \<and> b \<in> set (dependencies endpoints a)}"

text \<open>
  When two endpoints share an id, \<^verbatim>\<open>find\<close> returns the first, and the \<^verbatim>\<open>visited\<close>
  set (of ids) makes the resolver skip the others. The invariants below are stated for the
  endpoints that are the first with their id; when ids are distinct these are all endpoints.
\<close>

definition first_with_id :: "ApiEndpoint list \<Rightarrow> ApiEndpoint \<Rightarrow> bool" where
  "first_with_id endpoints e = (find (\<lambda>x. ep_id x = ep_id e) endpoints = Some e)"

definition first_depends_on :: "ApiEndpoint list \<Rightarrow> (ApiEndpoint \<times> ApiEndpoint) set" where
  "first_depends_on endpoints = {(a, b). first_with_id endpoints a \<and> b \<in> set (dependencies endpoints a)}"

text \<open>Every element of \<open>xs\<close> comes after its dependencies.\<close>

definition ordered :: "ApiEndpoint list \<Rightarrow> ApiEndpoint list \<Rightarrow> bool" where
  "ordered E xs = (\<forall>i<length xs. set (dependencies E (xs ! i)) \<subseteq> set (take i xs))"

text \<open>The invariant of the resolver's state between two calls of \<open>visit\<close>.\<close>

definition sort_inv :: "ApiEndpoint list \<Rightarrow> sort_state \<Rightarrow> bool" where
  "sort_inv E st =
     (st_visited st = ep_id ` set (st_sorted st)
      \<and> (\<forall>e \<in> set (st_sorted st). first_with_id E e)
      \<and> distinct (map ep_id (st_sorted st))
      \<and> st_visiting st \<inter> st_visited st = {}
      \<and> ordered E (st_sorted st))"

text \<open>Every id in \<^verbatim>\<open>visiting\<close> is that of an endpoint from which \<open>e\<close> is reached.\<close>

definition on_path :: "ApiEndpoint list \<Rightarrow> sort_state \<Rightarrow> ApiEndpoint \<Rightarrow> bool" where
  "on_path E st e =
     (\<forall>v \<in> st_visiting st. \<exists>x. first_with_id E x \<and> ep_id x = v \<and> (x, e) \<in> (first_depends_on E)\<^sup>*)"

subsection \<open>Example endpoints\<close>

text \<open>
  An endpoint with the given id whose connections name the given source endpoints; the
  other fields are fixed.
\<close>

definition example_connection :: "string \<Rightarrow> string \<Rightarrow> EndpointConnection" where
  "example_connection source target =
     \<lparr>conn_id = source @ ''_'' @ target, sourceNodeId = source, targetNodeId = target,
      sourceField = ''id'', targetField = ''id'', targetLocation = LQuery,
      naturalLanguageMapping = [], transform = None, sourceType = None, targetType = None,
      validated = None\<rparr>"

definition example_endpoint :: "string \<Rightarrow> string list \<Rightarrow> ApiEndpoint" where
  "example_endpoint i sources =
     \<lparr>ep_id = i, ep_name = i, ep_method = GET, ep_baseUrl = ''https://api.example.com'',
      ep_path = ''/'' @ i, ep_queryParams = [], ep_pathParams = [], ep_headers = [],
      ep_body = None, ep_expectedResponse = [], ep_naturalLanguageInput = None,
      ep_aiMapping = None,
      ep_connections = map (\<lambda>s. example_connection s i) sources\<rparr>"

section \<open>Execution results and the context\<close>

record RequestData =
  rq_url :: string
  rq_method :: HttpMethod
  rq_headers :: "(string \<times> string) list"
  rq_queryParams :: "(string \<times> jvalue) list"
  rq_body :: jvalue

record ResponseData =
  rs_headers :: "(string \<times> string) list"
  rs_body :: jvalue
  rs_size :: nat

text \<open>
  \<^verbatim>\<open>ExecutionResult\<close> (models/ExecutionResult.ts). The times are the readings of
  \<^verbatim>\<open>Date.now()\<close>; \<open>er_error\<close> is \<open>None\<close> when the field is absent.
\<close>

record ExecutionResult =
  er_endpointId :: string
  er_success :: bool
  er_statusCode :: nat
  er_responseTime :: int
  er_requestData :: RequestData
  er_responseData :: ResponseData
  er_error :: "string option"
  er_timestamp :: int

text \<open>\<^verbatim>\<open>ExecutionContext\<close>: the two \<^verbatim>\<open>Map\<close>s.\<close>

record ExecutionContext =
  ctx_results :: "string \<rightharpoonup> ExecutionResult"
  ctx_variables :: "string \<rightharpoonup> jvalue"

section \<open>Connection resolver\<close>

text \<open>JavaScript truthiness.\<close>

fun js_truthy :: "jvalue \<Rightarrow> bool" where
  "js_truthy JUndefined = False"
| "js_truthy JNull = False"
| "js_truthy (JBool b) = b"
| "js_truthy (JNum n) = (n \<noteq> Finite 0 \<and> n \<noteq> NaN)"
| "js_truthy (JStr s) = (s \<noteq> [])"
| "js_truthy (JArr xs) = True"
| "js_truthy (JObj kvs) = True"

text \<open>\<^verbatim>\<open>a || b\<close> on values.\<close>

definition js_or :: "jvalue \<Rightarrow> jvalue \<Rightarrow> jvalue" where
  "js_or a b = (if js_truthy a then a else b)"

text \<open>
  \<^verbatim>\<open>part in current\<close> for an object or an array, on its own properties (the members
  inherited from \<^verbatim>\<open>Object.prototype\<close> and \<^verbatim>\<open>Array.prototype\<close> are outside the model).
\<close>

definition js_in :: "string \<Rightarrow> jvalue \<Rightarrow> bool" where
  "js_in key v = js_hasOwnProperty v key"

text \<open>\<^verbatim>\<open>String.prototype.split\<close> with a one-character separator.\<close>

fun js_split :: "char \<Rightarrow> string \<Rightarrow> string list" where
  "js_split sep [] = [[]]"
| "js_split sep (c # cs) =
     (if c = sep then [] # js_split sep cs
      else (case js_split sep cs of
              [] \<Rightarrow> [[c]]
            | part # parts \<Rightarrow> (c # part) # parts))"

text \<open>The \<^verbatim>\<open>for\<close> loop of \<^verbatim>\<open>extractValueFromResult\<close> over the parts of the path.\<close>

fun extract_loop :: "jvalue \<Rightarrow> string list \<Rightarrow> jvalue" where
  "extract_loop current [] = current"
| "extract_loop current (part # parts) =
     (if part = [] then extract_loop current parts
      else if js_truthy current \<and> js_typeof current = ''object'' \<and> js_in part current
      then extract_loop (js_get current part) parts
      else JUndefined)"

text \<open>
  \<^verbatim>\<open>ApiExecutionEngine.extractValueFromResult\<close>. No operation of the source can throw:
  \<^verbatim>\<open>in\<close> is applied to objects only. The result \<open>JUndefined\<close> is the source's
  \<^verbatim>\<open>undefined\<close>.
\<close>

definition extractValueFromResult :: "ExecutionResult \<Rightarrow> string \<Rightarrow> jvalue" where
  "extractValueFromResult result path =
     (let data = rs_body (er_responseData result)
      in if path = [] \<or> path = ''.'' then data
         else extract_loop data (js_split (CHR ''.'') path))"

text \<open>
  \<^verbatim>\<open>obj[key] = v\<close> on the entries of an object: an existing key keeps its place, a new
  key is added last.
\<close>

fun obj_set :: "(string \<times> 'a) list \<Rightarrow> string \<Rightarrow> 'a \<Rightarrow> (string \<times> 'a) list" where
  "obj_set [] key v = [(key, v)]"
| "obj_set ((k, w) # kvs) key v =
     (if k = key then (key, v) # kvs else (k, w) # obj_set kvs key v)"

text \<open>The own enumerable properties that an object spread \<^verbatim>\<open>{...v}\<close> copies.\<close>

fun js_entries :: "jvalue \<Rightarrow> (string \<times> jvalue) list" where
  "js_entries (JObj kvs) = kvs"
| "js_entries (JArr xs) = zip (map string_of_nat [0..<length xs]) xs"
| "js_entries (JStr s) = zip (map string_of_nat [0..<length s]) (map (\<lambda>c. JStr [c]) s)"
| "js_entries _ = []"

definition obj_assign :: "(string \<times> 'a) list \<Rightarrow> (string \<times> 'a) list \<Rightarrow> (string \<times> 'a) list" where
  "obj_assign target entries = fold (\<lambda>(k, v) acc. obj_set acc k v) entries target"

text \<open>\<^verbatim>\<open>this.aiMapping?.resolvedParams\<close> and \<^verbatim>\<open>this.aiMapping?.resolvedBody\<close>.\<close>

definition resolvedParams :: "ApiEndpoint \<Rightarrow> jvalue" where
  "resolvedParams endpoint =
     (case ep_aiMapping endpoint of None \<Rightarrow> JUndefined | Some m \<Rightarrow> nl_resolvedParams m)"

definition resolvedBody :: "ApiEndpoint \<Rightarrow> jvalue" where
  "resolvedBody endpoint =
     (case ep_aiMapping endpoint of None \<Rightarrow> JUndefined | Some m \<Rightarrow> nl_resolvedBody m)"

text \<open>The default values of a map of parameter definitions, as the two \<^verbatim>\<open>forEach\<close> loops collect them.\<close>

definition default_values :: "(string \<times> ParameterDefinition) list \<Rightarrow> (string \<times> jvalue) list" where
  "default_values params =
     fold (\<lambda>(key, param) acc.
             if pd_defaultValue param \<noteq> JUndefined then obj_set acc key (pd_defaultValue param)
             else acc)
       params []"

text \<open>\<^verbatim>\<open>ApiEndpoint.getResolvedParams\<close> and \<^verbatim>\<open>ApiEndpoint.getResolvedBody\<close>.\<close>

definition getResolvedParams :: "ApiEndpoint \<Rightarrow> (string \<times> jvalue) list" where
  "getResolvedParams endpoint =
     obj_assign (obj_assign [] (default_values (ep_queryParams endpoint)))
       (js_entries (js_or (resolvedParams endpoint) (JObj [])))"

definition getResolvedBody :: "ApiEndpoint \<Rightarrow> jvalue" where
  "getResolvedBody endpoint =
     (case ep_body endpoint of
        None \<Rightarrow> JNull
      | Some b \<Rightarrow>
          JObj (obj_assign (obj_assign [] (js_entries (js_or (bs_content b) (JObj []))))
                  (js_entries (js_or (resolvedBody endpoint) (JObj [])))))"

record ResolvedData =
  rd_queryParams :: "(string \<times> jvalue) list"
  rd_pathParams :: "(string \<times> jvalue) list"
  rd_body :: jvalue
  rd_headers :: "(string \<times> string) list"

text \<open>
  The \<^verbatim>\<open>switch\<close> of \<^verbatim>\<open>resolveEndpointData\<close>. In the body case the value of
  \<^verbatim>\<open>body\<close> is \<^verbatim>\<open>null\<close> or a plain object, since \<^verbatim>\<open>getResolvedBody\<close> returns nothing
  else; any other value is left as it is.
\<close>

definition place_value ::
  "js_runtime \<Rightarrow> EndpointConnection \<Rightarrow> jvalue \<Rightarrow> ResolvedData \<Rightarrow> ResolvedData" where
  "place_value rt connection finalValue rd =
     (case targetLocation connection of
        LQuery \<Rightarrow>
          rd\<lparr>rd_queryParams := obj_set (rd_queryParams rd) (targetField connection) finalValue\<rparr>
      | LBody \<Rightarrow>
          (case (if \<not> js_truthy (rd_body rd) then JObj [] else rd_body rd) of
             JObj kvs \<Rightarrow> rd\<lparr>rd_body := JObj (obj_set kvs (targetField connection) finalValue)\<rparr>
           | other \<Rightarrow> rd\<lparr>rd_body := other\<rparr>)
      | LHeader \<Rightarrow>
          rd\<lparr>rd_headers := obj_set (rd_headers rd) (targetField connection) (js_String rt finalValue)\<rparr>
      | LPath \<Rightarrow>
          rd\<lparr>rd_pathParams := obj_set (rd_pathParams rd) (targetField connection) finalValue\<rparr>)"

text \<open>
  One iteration of the loop over \<^verbatim>\<open>endpoint.connections\<close>. \<^verbatim>\<open>connection.transform\<close> is
  tested for truthiness: an absent or empty name applies no transformation.
\<close>

definition resolve_connection ::
  "js_runtime \<Rightarrow> ExecutionContext \<Rightarrow> ResolvedData \<Rightarrow> EndpointConnection \<Rightarrow> js_error + ResolvedData"
where
  "resolve_connection rt ctx rd connection =
     (case ctx_results ctx (sourceNodeId connection) of
        None \<Rightarrow> Inr rd
      | Some sourceResult \<Rightarrow>
          if er_success sourceResult
          then (let v = extractValueFromResult sourceResult (sourceField connection)
                in if v \<noteq> JUndefined
                   then (case (case transform connection of
                                 None \<Rightarrow> Inr v
                               | Some t \<Rightarrow> if t \<noteq> [] then applyTransformation rt v t else Inr v) of
                           Inl e \<Rightarrow> Inl e
                         | Inr finalValue \<Rightarrow> Inr (place_value rt connection finalValue rd))
                   else Inr rd)
          else Inr rd)"

fun resolve_connections ::
  "js_runtime \<Rightarrow> ExecutionContext \<Rightarrow> EndpointConnection list \<Rightarrow> ResolvedData
     \<Rightarrow> js_error + ResolvedData" where
  "resolve_connections rt ctx [] rd = Inr rd"
| "resolve_connections rt ctx (connection # rest) rd =
     (case resolve_connection rt ctx rd connection of
        Inl e \<Rightarrow> Inl e
      | Inr rd' \<Rightarrow> resolve_connections rt ctx rest rd')"

text \<open>\<^verbatim>\<open>ApiExecutionEngine.resolveEndpointData\<close>.\<close>

definition resolveEndpointData ::
  "js_runtime \<Rightarrow> ExecutionContext \<Rightarrow> ApiEndpoint \<Rightarrow> js_error + ResolvedData" where
  "resolveEndpointData rt ctx endpoint =
     resolve_connections rt ctx (ep_connections endpoint)
       \<lparr>rd_queryParams = getResolvedParams endpoint,
        rd_pathParams = default_values (ep_pathParams endpoint),
        rd_body = getResolvedBody endpoint,
        rd_headers = ep_headers endpoint\<rparr>"

section \<open>AI parameter resolution\<close>

subsection \<open>Sanitizing the model's response\<close>

text \<open>
  Strings are lists of characters with codes below 256. \<^verbatim>\<open>String.prototype.trim\<close> removes
  white space and line terminators from both ends; below 256 these are the codes 9 to 13,
  32 and 160.
\<close>

definition js_space :: "char \<Rightarrow> bool" where
  "js_space c = (c \<in> {CHR 0x09, CHR 0x0A, CHR 0x0B, CHR 0x0C, CHR 0x0D, CHR 0x20, CHR 0xA0})"

definition js_trim :: "string \<Rightarrow> string" where
  "js_trim s = rev (dropWhile js_space (rev (dropWhile js_space s)))"

text \<open>Three backquotes.\<close>

definition fence :: string where
  "fence = [CHR 0x60, CHR 0x60, CHR 0x60]"

fun drop_newline :: "string \<Rightarrow> string" where
  "drop_newline [] = []"
| "drop_newline (c # cs) = (if c = CHR 0x0A then cs else c # cs)"

lemma length_drop_newline: "length (drop_newline s) \<le> length s"
  by (cases s) auto

text \<open>
  \<^verbatim>\<open>s.replace(/m\n?/g, '')\<close> for a literal \<open>m\<close>: one pass from left to right that drops
  each occurrence of \<open>m\<close> and the newline after it, if there is one.
\<close>

function remove_marker :: "string \<Rightarrow> string \<Rightarrow> string" where
  "remove_marker m [] = []"
| "remove_marker m (c # cs) =
     (if m \<noteq> [] \<and> take (length m) (c # cs) = m
      then remove_marker m (drop_newline (drop (length m) (c # cs)))
      else c # remove_marker m cs)"
  by pat_completeness auto

termination remove_marker
proof (relation "measure (\<lambda>(m, s). length s)")
  fix m :: string and c cs
  assume "m \<noteq> [] \<and> take (length m) (c # cs) = m"
  then have "length (drop (length m) (c # cs)) < length (c # cs)" by (cases m) auto
  with length_drop_newline[of "drop (length m) (c # cs)"]
  show "((m, drop_newline (drop (length m) (c # cs))), (m, c # cs)) \<in> measure (\<lambda>(m, s). length s)"
    by simp
qed auto

text \<open>
  The two regular expressions of \<^verbatim>\<open>cleanAiJsonResponse\<close> have the shape
  \<^verbatim>\<open>^[^o]*(o.*c)T$\<close> with the flag \<^verbatim>\<open>s\<close>: the group starts at the first opening
  character \<open>o\<close>, and the greedy \<^verbatim>\<open>.*\<close> makes it end at the last closing character \<open>c\<close>
  after which the rest of the string matches the tail \<open>T\<close>. \<open>match_group\<close> tries the
  lengths of the group from the longest down and returns the group, or \<open>None\<close> when the
  expression does not match.
\<close>

definition match_group :: "char \<Rightarrow> char \<Rightarrow> (string \<Rightarrow> bool) \<Rightarrow> string \<Rightarrow> string option" where
  "match_group opening closing tail_ok s =
     (let from_open = dropWhile (\<lambda>c. c \<noteq> opening) s
      in map_option (\<lambda>k. take k from_open)
           (find (\<lambda>k. from_open ! (k - 1) = closing \<and> tail_ok (drop k from_open))
              (rev [2..<Suc (length from_open)])))"

text \<open>
  The tails. For the object expression it is \<^verbatim>\<open>[^}]*\<close>: no closing brace. For the
  array expression the source writes \<^verbatim>\<open>[^]]*\<close>, which JavaScript reads as the class
  \<^verbatim>\<open>[^]\<close> (any one character) followed by \<^verbatim>\<open>]*\<close>: one character, then closing
  brackets only.
\<close>

definition object_tail :: "string \<Rightarrow> bool" where
  "object_tail rest = list_all (\<lambda>c. c \<noteq> CHR ''}'') rest"

definition array_tail :: "string \<Rightarrow> bool" where
  "array_tail rest = (rest \<noteq> [] \<and> list_all (\<lambda>c. c = CHR '']'') (tl rest))"

text \<open>
  \<^verbatim>\<open>ApiExecutionEngine.cleanAiJsonResponse\<close>. The two \<^verbatim>\<open>throw\<close> statements are kept
  with their guards \<^verbatim>\<open>!objectMatch[1]\<close> and \<^verbatim>\<open>!arrayMatch[1]\<close>; the last line returns
  the cleaned text when neither expression matches.
\<close>

definition cleanAiJsonResponse :: "string \<Rightarrow> js_error + string" where
  "cleanAiJsonResponse response =
     (let cleaned = js_trim (remove_marker fence
                       (remove_marker (fence @ ''json'') (js_trim response)))
      in case match_group (CHR ''{'') (CHR ''}'') object_tail cleaned of
           Some objectMatch \<Rightarrow>
             if objectMatch = []
             then Inl (Error (''AI body response is not valid JSON: '' @ response))
             else Inr objectMatch
         | None \<Rightarrow>
             (case match_group (CHR ''['') (CHR '']'') array_tail cleaned of
                Some arrayMatch \<Rightarrow>
                  if arrayMatch = []
                  then Inl (Error (''AI body response is not valid JSON: '' @ response))
                  else Inr arrayMatch
              | None \<Rightarrow> Inr cleaned))"

subsection \<open>Validation and merge of the parsed response\<close>

text \<open>\<^verbatim>\<open>String.prototype.includes\<close>.\<close>

fun string_includes :: "string \<Rightarrow> string \<Rightarrow> bool" where
  "string_includes [] pat = (pat = [])"
| "string_includes (c # cs) pat = (take (length pat) (c # cs) = pat \<or> string_includes cs pat)"

definition newline :: string where
  "newline = [CHR 0x0A]"

text \<open>
  \<^verbatim>\<open>ApiExecutionEngine.validateParameterSchema\<close>: it throws when the result is not
  valid; the warnings it logs otherwise are not part of the model.
\<close>

definition validateParameterSchema ::
  "js_runtime \<Rightarrow> jvalue \<Rightarrow> (string \<times> ParameterDefinition) list \<Rightarrow> string \<Rightarrow> js_error + unit" where
  "validateParameterSchema rt aiResponse schema contextType =
     (case validateParameters rt aiResponse schema of
        Inl e \<Rightarrow> Inl e
      | Inr result \<Rightarrow>
          if \<not> isValid result
          then Inl (Error (''AI '' @ contextType @ '' response validation failed:'' @ newline
                     @ js_join newline (map (\<lambda>e. ''  - '' @ e) (errors result))
                     @ (if length (warnings result) > 0
                        then newline @ ''Warnings:'' @ newline
                             @ js_join newline (map (\<lambda>w. ''  - '' @ w) (warnings result))
                        else [])))
          else Inr ())"

text \<open>
  The merge loops: \<^verbatim>\<open>keys.forEach(key => { if (ai.hasOwnProperty(key)) params[key] = ai[key] })\<close>.
  The call \<^verbatim>\<open>ai.hasOwnProperty(key)\<close> throws a TypeError when the parsed response has an
  own property of that name, which is then no function.
\<close>

fun merge_keys ::
  "jvalue \<Rightarrow> string list \<Rightarrow> (string \<times> jvalue) list \<Rightarrow> js_error + (string \<times> jvalue) list" where
  "merge_keys ai [] params = Inr params"
| "merge_keys ai (key # keys) params =
     (if js_hasOwnProperty ai ''hasOwnProperty''
      then Inl (TypeError ''aiResolvedParams.hasOwnProperty is not a function'')
      else merge_keys ai keys
             (if js_hasOwnProperty ai key then obj_set params key (js_get ai key) else params))"

text \<open>The \<^verbatim>\<open>catch\<close> block shared by \<^verbatim>\<open>resolvePathParameters\<close> and \<^verbatim>\<open>resolveQueryParameters\<close>.\<close>

definition catch_resolution :: "string \<Rightarrow> js_error \<Rightarrow> js_error" where
  "catch_resolution contextType error =
     (case error of
        SyntaxError m \<Rightarrow>
          Error (''AI '' @ contextType @ '' parameter response is not valid JSON: '' @ m)
      | _ \<Rightarrow>
          if string_includes (message error) (''AI '' @ contextType @ '' response'')
          then error
          else Error (''AI '' @ contextType @ '' parameter resolution failed: '' @ message error))"

text \<open>
  \<^verbatim>\<open>resolvePathParameters\<close> and \<^verbatim>\<open>resolveQueryParameters\<close>, from the completion on.
  \<open>response\<close> is the outcome of \<^verbatim>\<open>await this.aoai.chat(prompt, ...)\<close>: the text, or the
  error the client throws; the prompt and the templating collaborator are outside the
  model. The path loop runs over \<^verbatim>\<open>Object.keys(resolvedData.pathParams)\<close>, the query loop
  over \<^verbatim>\<open>Object.keys(endpoint.queryParams)\<close>.
\<close>

definition resolvePathParameters ::
  "js_runtime \<Rightarrow> js_error + string \<Rightarrow> ApiEndpoint \<Rightarrow> ResolvedData \<Rightarrow> js_error + ResolvedData" where
  "resolvePathParameters rt response endpoint resolvedData =
     (case (case response of
              Inl e \<Rightarrow> Inl e
            | Inr text \<Rightarrow>
                (case cleanAiJsonResponse text of
                   Inl e \<Rightarrow> Inl e
                 | Inr cleanResponse \<Rightarrow>
                     (case JSON_parse rt cleanResponse of
                        Inl m \<Rightarrow> Inl (SyntaxError m)
                      | Inr aiResolvedParams \<Rightarrow>
                          (case validateParameterSchema rt aiResolvedParams
                                  (ep_pathParams endpoint) ''path'' of
                             Inl e \<Rightarrow> Inl e
                           | Inr u \<Rightarrow>
                               (case merge_keys aiResolvedParams
                                       (map fst (rd_pathParams resolvedData))
                                       (rd_pathParams resolvedData) of
                                  Inl e \<Rightarrow> Inl e
                                | Inr merged \<Rightarrow> Inr (resolvedData\<lparr>rd_pathParams := merged\<rparr>)))))) of
        Inl error \<Rightarrow> Inl (catch_resolution ''path'' error)
      | Inr resolved \<Rightarrow> Inr resolved)"

definition resolveQueryParameters ::
  "js_runtime \<Rightarrow> js_error + string \<Rightarrow> ApiEndpoint \<Rightarrow> ResolvedData \<Rightarrow> js_error + ResolvedData" where
  "resolveQueryParameters rt response endpoint resolvedData =
     (case (case response of
              Inl e \<Rightarrow> Inl e
            | Inr text \<Rightarrow>
                (case cleanAiJsonResponse text of
                   Inl e \<Rightarrow> Inl e
                 | Inr cleanResponse \<Rightarrow>
                     (case JSON_parse rt cleanResponse of
                        Inl m \<Rightarrow> Inl (SyntaxError m)
                      | Inr aiResolvedParams \<Rightarrow>
                          (case validateParameterSchema rt aiResolvedParams
                                  (ep_queryParams endpoint) ''query'' of
                             Inl e \<Rightarrow> Inl e
                           | Inr u \<Rightarrow>
                               (case merge_keys aiResolvedParams
                                       (map fst (ep_queryParams endpoint))
                                       (rd_queryParams resolvedData) of
                                  Inl e \<Rightarrow> Inl e
                                | Inr merged \<Rightarrow> Inr (resolvedData\<lparr>rd_queryParams := merged\<rparr>)))))) of
        Inl error \<Rightarrow> Inl (catch_resolution ''query'' error)
      | Inr resolved \<Rightarrow> Inr resolved)"

section \<open>Flow executor\<close>

subsection \<open>Validation before the request\<close>

text \<open>\<^verbatim>\<open>ApiEndpoint.validate\<close>.\<close>

definition validate :: "ApiEndpoint \<Rightarrow> string list" where
  "validate endpoint =
     (if ep_baseUrl endpoint = [] then [''Base URL is required''] else [])
     @ (if ep_path endpoint = [] then [''Path is required''] else [])
     @ concat (map (\<lambda>(key, param).
                      if pd_required param \<and> \<not> js_truthy (pd_defaultValue param)
                         \<and> \<not> js_truthy (js_get (resolvedParams endpoint) key)
                      then [''Required query parameter '' @ quoted key
                            @ '' has no default value or AI mapping'']
                      else [])
                 (ep_queryParams endpoint))"

text \<open>\<^verbatim>\<open>ApiExecutionEngine.isValidTransformation\<close>: the table of allowed types.\<close>

definition validTransformations :: "(string \<times> ParameterType list \<times> ParameterType list) list" where
  "validTransformations =
     [(''string'', [TString, TNumber, TBoolean, TArray, TObject], [TString]),
      (''number'', [TString, TNumber], [TNumber]),
      (''boolean'', [TString, TBoolean], [TBoolean]),
      (''bearer-prefix'', [TString], [TString]),
      (''array-wrap'', [TString, TNumber, TBoolean, TObject], [TArray]),
      (''array-first'', [TArray], [TString, TNumber, TBoolean, TObject]),
      (''upper'', [TString], [TString]),
      (''lower'', [TString], [TString]),
      (''trim'', [TString], [TString])]"

definition isValidTransformation :: "string \<Rightarrow> ParameterType \<Rightarrow> ParameterType \<Rightarrow> bool" where
  "isValidTransformation transformName s t =
     (case map_of validTransformations transformName of
        None \<Rightarrow> False
      | Some (from_types, to_types) \<Rightarrow> s \<in> set from_types \<and> t \<in> set to_types)"

text \<open>
  \<^verbatim>\<open>ApiExecutionEngine.validateTypedConnections\<close>: the loop over the connections that
  have both types (the others are passed over), with its two \<^verbatim>\<open>throw\<close> statements. The
  source also sets \<^verbatim>\<open>connection.validated\<close> on each connection it has checked; no code
  reads that flag, and the model does not carry it.
\<close>

fun validateTypedConnections_loop :: "string \<Rightarrow> EndpointConnection list \<Rightarrow> js_error + unit" where
  "validateTypedConnections_loop endpointId [] = Inr ()"
| "validateTypedConnections_loop endpointId (connection # rest) =
     (case (sourceType connection, targetType connection) of
        (Some s, Some t) \<Rightarrow>
          if \<not> areTypesCompatibleEnhanced s t
          then Inl (Error (''Type incompatible connection in '' @ endpointId @ '': ''
                     @ type_name s @ '' -> '' @ type_name t
                     @ '' ('' @ sourceField connection @ '' -> '' @ targetField connection @ '')''))
          else (case transform connection of
                  Some tr \<Rightarrow>
                    if tr \<noteq> [] \<and> \<not> isValidTransformation tr s t
                    then Inl (Error (''Invalid transformation '' @ quoted tr @ '' for types ''
                               @ type_name s @ '' -> '' @ type_name t @ '' in '' @ endpointId))
                    else validateTypedConnections_loop endpointId rest
                | None \<Rightarrow> validateTypedConnections_loop endpointId rest)
      | _ \<Rightarrow> validateTypedConnections_loop endpointId rest)"

definition validateTypedConnections :: "ApiEndpoint \<Rightarrow> js_error + unit" where
  "validateTypedConnections endpoint =
     validateTypedConnections_loop (ep_id endpoint) (ep_connections endpoint)"

subsection \<open>Collaborators\<close>

record ExecutionOptions =
  opt_timeout :: "nat option"
  opt_retries :: "nat option"
  opt_validateResponse :: bool
  opt_continueOnError :: bool

record HttpResponse =
  resp_status :: nat
  resp_statusText :: string
  resp_headers :: "(string \<times> string) list"
  resp_data :: jvalue

text \<open>
  The steps of \<^verbatim>\<open>executeEndpoint\<close> that leave the engine, each with its outcome: the
  value it returns, or the error it throws.
  \<^item> \<open>buildRequestConfig\<close>: the request built from the resolved data, after the AI
    resolution when the endpoint has a natural-language input; it returns the resolved data
    too, which the AI resolution mutates;
  \<^item> \<open>applyAuth\<close>: the block that selects the endpoint's or the global authentication and
    applies its handler (the registered handlers do not touch the context);
  \<^item> \<open>executeHttpRequest\<close>: the HTTP call with its retries;
  \<^item> \<open>logConnections\<close>: \<^verbatim>\<open>formatConnectionDataForLogging\<close>, which only builds a string
    to print;
  \<^item> the three readings of the clock.
\<close>

record collaborators =
  buildRequestConfig :: "ApiEndpoint \<Rightarrow> ResolvedData \<Rightarrow> js_error + (RequestData \<times> ResolvedData)"
  applyAuth :: "ApiEndpoint \<Rightarrow> RequestData \<Rightarrow> js_error + RequestData"
  executeHttpRequest :: "RequestData \<Rightarrow> ExecutionOptions \<Rightarrow> js_error + HttpResponse"
  logConnections :: "ApiEndpoint \<Rightarrow> ExecutionContext \<Rightarrow> js_error option"
  startTime :: int
  resultTime :: int
  catchTime :: int

subsection \<open>executeEndpoint\<close>

text \<open>\<^verbatim>\<open>ApiEndpoint.getFullUrl()\<close> without path values.\<close>

definition getFullUrl :: "ApiEndpoint \<Rightarrow> string" where
  "getFullUrl endpoint = ep_baseUrl endpoint @ ep_path endpoint"

text \<open>\<^verbatim>\<open>ApiExecutionEngine.validateResponse\<close>.\<close>

definition validateResponse :: "ApiEndpoint \<Rightarrow> ExecutionResult \<Rightarrow> js_error + unit" where
  "validateResponse endpoint result =
     (case find (\<lambda>resp. rsp_statusCode resp = er_statusCode result) (ep_expectedResponse endpoint) of
        None \<Rightarrow> Inl (Error (''Unexpected status code: '' @ string_of_nat (er_statusCode result)))
      | Some expectedResponse \<Rightarrow> Inr ())"

text \<open>
  The statements of the \<^verbatim>\<open>try\<close> block up to the line that creates the result: the
  request configuration, the resolved data, the response and the size of its body, or the
  first error thrown.
\<close>

definition try_request ::
  "js_runtime \<Rightarrow> collaborators \<Rightarrow> ExecutionContext \<Rightarrow> ApiEndpoint \<Rightarrow> ExecutionOptions
     \<Rightarrow> js_error + (RequestData \<times> ResolvedData \<times> HttpResponse \<times> nat)" where
  "try_request rt col ctx endpoint options =
     (let validationErrors = validate endpoint
      in if length validationErrors > 0
         then Inl (Error (''Endpoint validation failed: '' @ js_join '', '' validationErrors))
         else
           (case validateTypedConnections endpoint of
              Inl e \<Rightarrow> Inl e
            | Inr u \<Rightarrow>
           (case resolveEndpointData rt ctx endpoint of
              Inl e \<Rightarrow> Inl e
            | Inr resolvedData0 \<Rightarrow>
           (case buildRequestConfig col endpoint resolvedData0 of
              Inl e \<Rightarrow> Inl e
            | Inr (requestConfig0, resolvedData) \<Rightarrow>
           (case applyAuth col endpoint requestConfig0 of
              Inl e \<Rightarrow> Inl e
            | Inr requestConfig \<Rightarrow>
           (case executeHttpRequest col requestConfig options of
              Inl e \<Rightarrow> Inl e
            | Inr response \<Rightarrow>
           (case (if length (ep_connections endpoint) > 0 then logConnections col endpoint ctx
                  else None) of
              Some e \<Rightarrow> Inl e
            | None \<Rightarrow>
           (case JSON_stringify rt (resp_data response) of
              None \<Rightarrow> Inl (TypeError (''Cannot read properties of undefined (reading ''
                               @ quoted ''length'' @ '')''))
            | Some serialized \<Rightarrow>
                Inr (requestConfig, resolvedData, response, length serialized)))))))))"

text \<open>The result of a successful attempt, and the result that the \<^verbatim>\<open>catch\<close> block builds.\<close>

definition success_result ::
  "collaborators \<Rightarrow> ApiEndpoint \<Rightarrow> RequestData \<Rightarrow> ResolvedData \<Rightarrow> HttpResponse \<Rightarrow> nat
     \<Rightarrow> ExecutionResult" where
  "success_result col endpoint requestConfig resolvedData response bodySize =
     \<lparr>er_endpointId = ep_id endpoint,
      er_success = True,
      er_statusCode = resp_status response,
      er_responseTime = resultTime col - startTime col,
      er_requestData = \<lparr>rq_url = rq_url requestConfig, rq_method = rq_method requestConfig,
                        rq_headers = rq_headers requestConfig,
                        rq_queryParams = rd_queryParams resolvedData,
                        rq_body = rd_body resolvedData\<rparr>,
      er_responseData = \<lparr>rs_headers = resp_headers response, rs_body = resp_data response,
                         rs_size = bodySize\<rparr>,
      er_error = None,
      er_timestamp = resultTime col\<rparr>"

definition failure_result :: "collaborators \<Rightarrow> ApiEndpoint \<Rightarrow> js_error \<Rightarrow> ExecutionResult" where
  "failure_result col endpoint error =
     \<lparr>er_endpointId = ep_id endpoint,
      er_success = False,
      er_statusCode = 0,
      er_responseTime = catchTime col - startTime col,
      er_requestData = \<lparr>rq_url = getFullUrl endpoint, rq_method = ep_method endpoint,
                        rq_headers = [], rq_queryParams = [], rq_body = JUndefined\<rparr>,
      er_responseData = \<lparr>rs_headers = [], rs_body = JNull, rs_size = 0\<rparr>,
      er_error = Some (message error),
      er_timestamp = catchTime col\<rparr>"

text \<open>\<^verbatim>\<open>this.context.results.set(endpoint.id, result)\<close>.\<close>

definition record_result :: "ExecutionContext \<Rightarrow> ApiEndpoint \<Rightarrow> ExecutionResult \<Rightarrow> ExecutionContext" where
  "record_result ctx endpoint result =
     ctx\<lparr>ctx_results := (ctx_results ctx)(ep_id endpoint \<mapsto> result)\<rparr>"

text \<open>
  The \<^verbatim>\<open>try\<close> block of \<^verbatim>\<open>executeEndpoint\<close>: \<open>Inr\<close> with the context and the result it
  returns, or \<open>Inl\<close> with the error it throws and the context at that moment. The
  response is validated after the result has been stored.
\<close>

definition try_block ::
  "js_runtime \<Rightarrow> collaborators \<Rightarrow> ExecutionContext \<Rightarrow> ApiEndpoint \<Rightarrow> ExecutionOptions
     \<Rightarrow> (ExecutionContext \<times> js_error) + (ExecutionContext \<times> ExecutionResult)" where
  "try_block rt col ctx endpoint options =
     (case try_request rt col ctx endpoint options of
        Inl e \<Rightarrow> Inl (ctx, e)
      | Inr (requestConfig, resolvedData, response, bodySize) \<Rightarrow>
          (let result = success_result col endpoint requestConfig resolvedData response bodySize;
               ctx1 = record_result ctx endpoint result
           in if opt_validateResponse options
              then (case validateResponse endpoint result of
                      Inl e \<Rightarrow> Inl (ctx1, e)
                    | Inr u \<Rightarrow> Inr (ctx1, result))
              else Inr (ctx1, result)))"

text \<open>
  \<^verbatim>\<open>ApiExecutionEngine.executeEndpoint\<close>: the \<^verbatim>\<open>try\<close> block and the \<^verbatim>\<open>catch\<close> block,
  which stores the failed result under the same id and returns it. Nothing in the
  \<^verbatim>\<open>catch\<close> block throws.
\<close>

definition executeEndpoint ::
  "js_runtime \<Rightarrow> collaborators \<Rightarrow> ExecutionContext \<Rightarrow> ApiEndpoint \<Rightarrow> ExecutionOptions
     \<Rightarrow> ExecutionContext \<times> ExecutionResult" where
  "executeEndpoint rt col ctx endpoint options =
     (case try_block rt col ctx endpoint options of
        Inr (ctx1, result) \<Rightarrow> (ctx1, result)
      | Inl (ctx1, error) \<Rightarrow>
          (let result = failure_result col endpoint error
           in (record_result ctx1 endpoint result, result)))"

subsection \<open>executeFlow\<close>

text \<open>The \<^verbatim>\<open>for\<close> loop of \<^verbatim>\<open>executeFlow\<close> with its \<^verbatim>\<open>break\<close>.\<close>

fun executeFlow_loop ::
  "js_runtime \<Rightarrow> collaborators \<Rightarrow> ExecutionOptions \<Rightarrow> ExecutionContext \<Rightarrow> ApiEndpoint list
     \<Rightarrow> ExecutionResult list \<Rightarrow> ExecutionContext \<times> ExecutionResult list" where
  "executeFlow_loop rt col options ctx [] results = (ctx, results)"
| "executeFlow_loop rt col options ctx (endpoint # rest) results =
     (case executeEndpoint rt col ctx endpoint options of
        (ctx1, result) \<Rightarrow>
          if \<not> er_success result \<and> \<not> opt_continueOnError options
          then (ctx1, results @ [result])
          else executeFlow_loop rt col options ctx1 rest (results @ [result]))"

text \<open>
  \<^verbatim>\<open>ApiExecutionEngine.executeFlow\<close>: the error of the dependency resolver is the one
  error it throws.
\<close>

definition executeFlow ::
  "js_runtime \<Rightarrow> collaborators \<Rightarrow> ExecutionContext \<Rightarrow> ApiEndpoint list \<Rightarrow> ExecutionOptions
     \<Rightarrow> (js_error + ExecutionContext \<times> ExecutionResult list) option" where
  "executeFlow rt col ctx endpoints options =
     (case sortEndpointsByDependencies endpoints of
        None \<Rightarrow> None
      | Some (Inl e) \<Rightarrow> Some (Inl e)
      | Some (Inr sortedEndpoints) \<Rightarrow>
          Some (Inr (executeFlow_loop rt col options ctx sortedEndpoints [])))"

text \<open>
  The JSON texts \<^verbatim>\<open>{"id":1}\<close>, \<^verbatim>\<open>{"id":"123"}\<close> and \<^verbatim>\<open>{"id":"123","other":"y"}\<close>,
  the first of them between code fences, and a response without any JSON.
\<close>

definition json_id_1 :: string where
  "json_id_1 = ''{'' @ [CHR 0x22] @ ''id'' @ [CHR 0x22] @ '':1}''"

definition fenced_response :: string where
  "fenced_response = fence @ ''json'' @ newline @ json_id_1 @ newline @ fence"

definition refusal_response :: string where
  "refusal_response = ''I cannot help with that''"

definition json_id_123 :: string where
  "json_id_123 = ''{'' @ [CHR 0x22] @ ''id'' @ [CHR 0x22] @ '':'' @ [CHR 0x22] @ ''123'' @ [CHR 0x22] @ ''}''"

definition json_id_other :: string where
  "json_id_other = ''{'' @ [CHR 0x22] @ ''id'' @ [CHR 0x22] @ '':'' @ [CHR 0x22] @ ''123'' @ [CHR 0x22]
     @ '','' @ [CHR 0x22] @ ''other'' @ [CHR 0x22] @ '':'' @ [CHR 0x22] @ ''y'' @ [CHR 0x22] @ ''}''"

text \<open>
  A runtime for the examples: its regular expressions match a string equal to the pattern,
  its parser reads the two JSON texts above and rejects every other text, every value
  prints and serializes as a question mark, and no transformation changes a value.
\<close>

definition example_runtime :: js_runtime where
  "example_runtime =
     \<lparr>RegExp_test = (\<lambda>p s. Inr (p = s)),
      JSON_parse = (\<lambda>s. if s = json_id_123 then Inr (JObj [(''id'', JStr ''123'')])
                        else if s = json_id_other
                        then Inr (JObj [(''id'', JStr ''123''), (''other'', JStr ''y'')])
                        else Inl ''Unexpected token''),
      JSON_stringify = (\<lambda>v. if v = JUndefined then None else Some ''?''),
      js_String = (\<lambda>v. ''?''),
      applyTransformation = (\<lambda>v t. Inr v)\<rparr>"

text \<open>A definition with a name, a type and the \<^verbatim>\<open>required\<close> flag only.\<close>

definition simple_parameter :: "string \<Rightarrow> ParameterType \<Rightarrow> bool \<Rightarrow> ParameterDefinition" where
  "simple_parameter n t r = ParameterDefinition n t r JUndefined None None None"





definition empty_resolved :: ResolvedData where
  "empty_resolved = \<lparr>rd_queryParams = [], rd_pathParams = [], rd_body = JNull, rd_headers = []\<rparr>"

text \<open>
  An endpoint that declares the string parameter \<^verbatim>\<open>id\<close>, required and without a default
  value, both as a path and as a query parameter.
\<close>

definition id_endpoint :: ApiEndpoint where
  "id_endpoint = (example_endpoint ''getUser'' [])
     \<lparr>ep_pathParams := [(''id'', simple_parameter ''id'' TString True)],
      ep_queryParams := [(''id'', simple_parameter ''id'' TString True)]\<rparr>"

text \<open>
  Collaborators for the examples: the request is built from the endpoint and the resolved
  data without AI resolution, no authentication is applied, and the HTTP call has the
  given outcome. The endpoint \<^verbatim>\<open>getUser\<close> expects the status 200.
\<close>

definition example_collaborators :: "js_error + HttpResponse \<Rightarrow> collaborators" where
  "example_collaborators outcome =
     \<lparr>buildRequestConfig = (\<lambda>endpoint rd.
         Inr (\<lparr>rq_url = getFullUrl endpoint, rq_method = ep_method endpoint,
               rq_headers = rd_headers rd, rq_queryParams = rd_queryParams rd,
               rq_body = JUndefined\<rparr>, rd)),
      applyAuth = (\<lambda>endpoint request. Inr request),
      executeHttpRequest = (\<lambda>request options. outcome),
      logConnections = (\<lambda>endpoint ctx. None),
      startTime = 0, resultTime = 12, catchTime = 13\<rparr>"

definition not_found :: HttpResponse where
  "not_found = \<lparr>resp_status = 404, resp_statusText = ''Not Found'', resp_headers = [],
                 resp_data = JStr ''not found''\<rparr>"

definition checked_endpoint :: ApiEndpoint where
  "checked_endpoint = (example_endpoint ''getUser'' [])
     \<lparr>ep_expectedResponse := [\<lparr>rsp_statusCode = 200, rsp_body = None\<rparr>]\<rparr>"

definition empty_context :: ExecutionContext where
  "empty_context = \<lparr>ctx_results = Map.empty, ctx_variables = Map.empty\<rparr>"

definition validating_options :: ExecutionOptions where
  "validating_options =
     \<lparr>opt_timeout = None, opt_retries = None, opt_validateResponse = True,
      opt_continueOnError = False\<rparr>"

section \<open>Type compatibility at the two checkpoints\<close>

text \<open>
  C2, as stated: both predicates agree with the priority rule on all pairs. This fails for
  the builder's predicate at the pair array \<rightarrow> object, which the rule admits and the
  builder rejects.
\<close>

theorem C2_builder_array_object_counterexample:
  "\<not> (areTypesCompatible TArray TObject = spec_compatible TArray TObject)"
  by (simp add: areTypesCompatible_def spec_compatible_def)

text \<open>
  C2, amended: the engine's predicate (flow-execution time) is exactly the priority rule
  with its five clauses; the builder's predicate (construction time) is exactly the first
  four clauses, so it agrees with the rule on every pair except array \<rightarrow> object, which
  it rejects.
\<close>

theorem C2_compatibility_matrix:
  "areTypesCompatibleEnhanced s t = spec_compatible s t
   \<and> areTypesCompatible s t =
       (s = t \<or> t = TString \<or> (s = TString \<and> t = TNumber) \<or> (s = TString \<and> t = TBoolean))
   \<and> areTypesCompatible s t = (spec_compatible s t \<and> (s, t) \<noteq> (TArray, TObject))"
  by (cases s; cases t)
     (simp_all add: areTypesCompatibleEnhanced_def areTypesCompatible_def spec_compatible_def)

section \<open>Schema validator\<close>

text \<open>
  C3. For each of the three empty values \<^verbatim>\<open>null\<close>, \<^verbatim>\<open>undefined\<close> and \<^verbatim>\<open>""\<close>, whatever
  the runtime and whatever the type, constraints and nested definitions of \<open>d\<close>:
  \<^verbatim>\<open>validateParameter\<close> returns (it raises nothing), and the result is invalid with the
  required-field message as its only error when \<open>d\<close> is required, and valid without
  errors when it is not. No type, constraint or nested check contributes to the result.
\<close>

theorem C3_required_empty:
  "validateParameter rt JNull d =
     Inr (if pd_required d
          then \<lparr>isValid = False,
                errors = [''Required parameter '' @ quoted (pd_name d) @ '' is missing or empty''],
                warnings = []\<rparr>
          else \<lparr>isValid = True, errors = [], warnings = []\<rparr>)
   \<and> validateParameter rt JUndefined d =
     Inr (if pd_required d
          then \<lparr>isValid = False,
                errors = [''Required parameter '' @ quoted (pd_name d) @ '' is missing or empty''],
                warnings = []\<rparr>
          else \<lparr>isValid = True, errors = [], warnings = []\<rparr>)
   \<and> validateParameter rt (JStr []) d =
     Inr (if pd_required d
          then \<lparr>isValid = False,
                errors = [''Required parameter '' @ quoted (pd_name d) @ '' is missing or empty''],
                warnings = []\<rparr>
          else \<lparr>isValid = True, errors = [], warnings = []\<rparr>)"
  by (simp add: validateParameter.simps(1) isEmpty_def)

lemma validateParameters_example:
  "validateParameters example_runtime (JObj [(''a'', JNum (Finite 3)), (''zz'', JNull)])
     [(''a'', simple_parameter ''a'' TNumber True), (''b'', simple_parameter ''b'' TString False)]
   = Inr \<lparr>isValid = True, errors = [],
           warnings = [''Unexpected parameter '' @ quoted ''zz'' @ '' provided'']\<rparr>"
  by (simp add: validateParameters_def validateParameter.simps(1) simple_parameter_def
      js_read_def isEmpty_def validateConstraints_def Object_keys_def)

lemma validateParameter_example:
  "validateParameter example_runtime (JNum (Finite 3)) (simple_parameter ''id'' TString True)
   = Inr \<lparr>isValid = False,
           errors = [''Parameter '' @ quoted ''id'' @ '' expected type '' @ quoted ''string''
                     @ '' but got '' @ quoted ''number''],
           warnings = []\<rparr>"
  by (simp add: validateParameter.simps(1) simple_parameter_def isEmpty_def
      validateConstraints_def)

text \<open>
  C10. Every result that \<^verbatim>\<open>validateParameter\<close> or \<^verbatim>\<open>validateParameters\<close> returns has
  \<open>isValid\<close> exactly when its list of errors is empty; the results of the nested calls
  are results of \<^verbatim>\<open>validateParameter\<close> too. Warnings play no part: an unexpected
  parameter gives a warning and a valid result.
\<close>

theorem C10_isValid_iff_no_errors:
  "(validateParameter rt v d = Inr r \<longrightarrow> isValid r = (errors r = []))
   \<and> (validateParameters rt vals defs = Inr r' \<longrightarrow> isValid r' = (errors r' = []))
   \<and> validateParameters example_runtime (JObj [(''a'', JNum (Finite 3)), (''zz'', JNull)])
         [(''a'', simple_parameter ''a'' TNumber True), (''b'', simple_parameter ''b'' TString False)]
       = Inr \<lparr>isValid = True, errors = [],
               warnings = [''Unexpected parameter '' @ quoted ''zz'' @ '' provided'']\<rparr>"
proof (intro conjI impI)
  assume "validateParameter rt v d = Inr r"
  then show "isValid r = (errors r = [])"
    by (subst (asm) validateParameter.simps(1))
       (auto simp: Let_def split: if_splits sum.splits prod.splits)
next
  assume "validateParameters rt vals defs = Inr r'"
  then show "isValid r' = (errors r' = [])"
    by (auto simp: validateParameters_def split: sum.splits prod.splits)
next
  show "validateParameters example_runtime (JObj [(''a'', JNum (Finite 3)), (''zz'', JNull)])
         [(''a'', simple_parameter ''a'' TNumber True), (''b'', simple_parameter ''b'' TString False)]
       = Inr \<lparr>isValid = True, errors = [],
               warnings = [''Unexpected parameter '' @ quoted ''zz'' @ '' provided'']\<rparr>"
    by (rule validateParameters_example)
qed

theorem C10_isValid_iff_no_errors_witness:
  "validateParameter example_runtime (JNum (Finite 3)) (simple_parameter ''id'' TString True)
     = Inr \<lparr>isValid = False,
             errors = [''Parameter '' @ quoted ''id'' @ '' expected type '' @ quoted ''string''
                       @ '' but got '' @ quoted ''number''],
             warnings = []\<rparr>
   \<and> isValid \<lparr>isValid = False,
             errors = [''Parameter '' @ quoted ''id'' @ '' expected type '' @ quoted ''string''
                       @ '' but got '' @ quoted ''number''],
             warnings = []\<rparr>
       = (errors \<lparr>isValid = False,
             errors = [''Parameter '' @ quoted ''id'' @ '' expected type '' @ quoted ''string''
                       @ '' but got '' @ quoted ''number''],
             warnings = []\<rparr> = [])
   \<and> isValid \<lparr>isValid = True, errors = [],
               warnings = [''Unexpected parameter '' @ quoted ''zz'' @ '' provided'']\<rparr>
       = (errors \<lparr>isValid = True, errors = [],
               warnings = [''Unexpected parameter '' @ quoted ''zz'' @ '' provided'']\<rparr> = [])"
  using C10_isValid_iff_no_errors[THEN conjunct1, rule_format, OF validateParameter_example]
    C10_isValid_iff_no_errors[THEN conjunct2, THEN conjunct1, rule_format,
      OF validateParameters_example]
    validateParameter_example
  by (intro conjI)

section \<open>Field extraction and skipped connections\<close>









section \<open>AI parameter resolution: sanitation and merge\<close>

lemma find_in_set: "find P xs = Some x \<Longrightarrow> x \<in> set xs"
  by (induction xs) (auto split: if_splits)

lemma match_group_nonempty: "match_group a b t s = Some g \<Longrightarrow> g \<noteq> []"
proof -
  assume "match_group a b t s = Some g"
  then obtain k where k: "find (\<lambda>k. dropWhile (\<lambda>c. c \<noteq> a) s ! (k - 1) = b
        \<and> t (drop k (dropWhile (\<lambda>c. c \<noteq> a) s)))
      (rev [2..<Suc (length (dropWhile (\<lambda>c. c \<noteq> a) s))]) = Some k"
    and g: "g = take k (dropWhile (\<lambda>c. c \<noteq> a) s)"
    by (auto simp: match_group_def Let_def)
  from k have "k \<in> set (rev [2..<Suc (length (dropWhile (\<lambda>c. c \<noteq> a) s))])"
    by (rule find_in_set)
  then have "2 \<le> k" "k \<le> length (dropWhile (\<lambda>c. c \<noteq> a) s)" by auto
  with g have "length g = k" by simp
  with \<open>2 \<le> k\<close> show "g \<noteq> []" by auto
qed

lemma clean_never_raises: "\<exists>s. cleanAiJsonResponse response = Inr s"
  by (auto simp: cleanAiJsonResponse_def Let_def dest: match_group_nonempty split: option.splits)

lemma clean_fenced: "cleanAiJsonResponse fenced_response = Inr json_id_1"
  by (simp add: cleanAiJsonResponse_def fenced_response_def json_id_1_def fence_def newline_def
      js_trim_def js_space_def match_group_def object_tail_def)

lemma clean_refusal: "cleanAiJsonResponse refusal_response = Inr refusal_response"
  by (simp add: cleanAiJsonResponse_def refusal_response_def fence_def js_trim_def js_space_def
      match_group_def object_tail_def array_tail_def)

lemma clean_oops: "cleanAiJsonResponse ''{oops}'' = Inr ''{oops}''"
  by (simp add: cleanAiJsonResponse_def fence_def js_trim_def js_space_def
      match_group_def object_tail_def array_tail_def)

lemma parse_refusal: "JSON_parse example_runtime refusal_response = Inl ''Unexpected token''"
  by (simp add: example_runtime_def refusal_response_def json_id_123_def json_id_other_def)

lemma parse_oops: "JSON_parse example_runtime ''{oops}'' = Inl ''Unexpected token''"
  by (simp add: example_runtime_def json_id_123_def json_id_other_def)

lemma query_refusal:
  "resolveQueryParameters example_runtime (Inr refusal_response) endpoint rd
     = Inl (Error (''AI query parameter response is not valid JSON: '' @ ''Unexpected token''))"
  by (simp add: resolveQueryParameters_def clean_refusal parse_refusal catch_resolution_def)

lemma query_oops:
  "resolveQueryParameters example_runtime (Inr ''{oops}'') endpoint rd
     = Inl (Error (''AI query parameter response is not valid JSON: '' @ ''Unexpected token''))"
  by (simp add: resolveQueryParameters_def clean_oops parse_oops catch_resolution_def)

lemma clean_id_123: "cleanAiJsonResponse json_id_123 = Inr json_id_123"
  by (simp add: cleanAiJsonResponse_def json_id_123_def fence_def js_trim_def js_space_def
      match_group_def object_tail_def)

lemma clean_id_other: "cleanAiJsonResponse json_id_other = Inr json_id_other"
  by (simp add: cleanAiJsonResponse_def json_id_other_def fence_def js_trim_def js_space_def
      match_group_def object_tail_def)

lemma parse_id_123: "JSON_parse example_runtime json_id_123 = Inr (JObj [(''id'', JStr ''123'')])"
  by (simp add: example_runtime_def)

lemma parse_id_other:
  "JSON_parse example_runtime json_id_other = Inr (JObj [(''id'', JStr ''123''), (''other'', JStr ''y'')])"
  by (simp add: example_runtime_def json_id_123_def json_id_other_def)

lemma valid_id_123:
  "validateParameterSchema example_runtime (JObj [(''id'', JStr ''123'')])
     [(''id'', simple_parameter ''id'' TString True)] ctx = Inr ()"
  by (simp add: validateParameterSchema_def validateParameters_def validateParameter.simps(1)
      simple_parameter_def js_read_def isEmpty_def validateConstraints_def Object_keys_def)

lemma valid_id_other:
  "validateParameterSchema example_runtime (JObj [(''id'', JStr ''123''), (''other'', JStr ''y'')])
     [(''id'', simple_parameter ''id'' TString True)] ctx = Inr ()"
  by (simp add: validateParameterSchema_def validateParameters_def validateParameter.simps(1)
      simple_parameter_def js_read_def isEmpty_def validateConstraints_def Object_keys_def)

lemma path_not_written:
  "resolvePathParameters example_runtime (Inr json_id_123) id_endpoint empty_resolved = Inr empty_resolved"
  by (simp add: resolvePathParameters_def clean_id_123 parse_id_123 id_endpoint_def valid_id_123
      empty_resolved_def)

lemma query_written:
  "resolveQueryParameters example_runtime (Inr json_id_123) id_endpoint empty_resolved
     = Inr (empty_resolved\<lparr>rd_queryParams := [(''id'', JStr ''123'')]\<rparr>)"
  by (simp add: resolveQueryParameters_def clean_id_123 parse_id_123 id_endpoint_def valid_id_123
      empty_resolved_def)

lemma path_undeclared_overwritten:
  "resolvePathParameters example_runtime (Inr json_id_other) id_endpoint
       (empty_resolved\<lparr>rd_pathParams := [(''other'', JStr ''x'')]\<rparr>)
     = Inr (empty_resolved\<lparr>rd_pathParams := [(''other'', JStr ''y'')]\<rparr>)"
  by (simp add: resolvePathParameters_def clean_id_other parse_id_other id_endpoint_def
      valid_id_other empty_resolved_def)

lemma map_of_obj_set: "map_of (obj_set kvs k v) = (map_of kvs)(k \<mapsto> v)"
  by (induction kvs) (auto simp: fun_eq_iff)

lemma merge_keys_map_of:
  "merge_keys ai keys params = Inr merged \<Longrightarrow>
     map_of merged k = (if k \<in> set keys \<and> js_hasOwnProperty ai k then Some (js_get ai k)
                        else map_of params k)"
  by (induction keys arbitrary: params) (auto simp: map_of_obj_set split: if_splits)

lemma query_slot_merge:
  assumes "resolveQueryParameters rt response endpoint rd = Inr rd'"
  shows "\<exists>raw cleanResponse ai.
     response = Inr raw \<and> cleanAiJsonResponse raw = Inr cleanResponse
     \<and> JSON_parse rt cleanResponse = Inr ai
     \<and> (\<forall>k. map_of (rd_queryParams rd') k =
          (if k \<in> fst ` set (ep_queryParams endpoint) \<and> js_hasOwnProperty ai k
           then Some (js_get ai k) else map_of (rd_queryParams rd) k))
     \<and> rd_pathParams rd' = rd_pathParams rd \<and> rd_body rd' = rd_body rd
     \<and> rd_headers rd' = rd_headers rd"
proof -
  from assms obtain raw cleanResponse ai merged where
    r: "response = Inr raw" and c: "cleanAiJsonResponse raw = Inr cleanResponse"
    and p: "JSON_parse rt cleanResponse = Inr ai"
    and m: "merge_keys ai (map fst (ep_queryParams endpoint)) (rd_queryParams rd) = Inr merged"
    and rd': "rd' = rd\<lparr>rd_queryParams := merged\<rparr>"
    by (auto simp: resolveQueryParameters_def split: sum.splits)
  have "map_of (rd_queryParams rd') k =
          (if k \<in> fst ` set (ep_queryParams endpoint) \<and> js_hasOwnProperty ai k
           then Some (js_get ai k) else map_of (rd_queryParams rd) k)" for k
    using merge_keys_map_of[OF m, of k] rd' by simp
  with r c p rd' show ?thesis by simp
qed


text \<open>
  C4. \<^verbatim>\<open>cleanAiJsonResponse\<close> raises for no response: when neither expression matches
  it returns the cleaned text, so a response without any JSON structure reaches
  \<^verbatim>\<open>JSON.parse\<close>, and the failure reported for the response
  \<^verbatim>\<open>I cannot help with that\<close> is the message of a parse failure, the same as for the
  malformed object \<^verbatim>\<open>{oops}\<close>. The fenced \<^verbatim>\<open>{"id":1}\<close> is sanitized to exactly
  \<^verbatim>\<open>{"id":1}\<close>.
\<close>

theorem C4_no_structure_reaches_parser:
  "(\<exists>s. cleanAiJsonResponse response = Inr s)
   \<and> cleanAiJsonResponse refusal_response = Inr refusal_response
   \<and> resolveQueryParameters example_runtime (Inr refusal_response) endpoint rd
       = Inl (Error (''AI query parameter response is not valid JSON: '' @ ''Unexpected token''))
   \<and> resolveQueryParameters example_runtime (Inr ''{oops}'') endpoint rd
       = Inl (Error (''AI query parameter response is not valid JSON: '' @ ''Unexpected token''))
   \<and> cleanAiJsonResponse fenced_response = Inr json_id_1"
  using clean_never_raises clean_refusal query_refusal query_oops clean_fenced
  by (intro conjI)

text \<open>
  C7. On the endpoint that declares \<^verbatim>\<open>id\<close> and the validated response
  \<^verbatim>\<open>{"id":"123"}\<close>: the query slot receives the declared key, the path slot does not
  (its loop runs over the keys already resolved, and there are none). With the path key
  \<^verbatim>\<open>other\<close> resolved from a connection and not declared, the response
  \<^verbatim>\<open>{"id":"123","other":"y"}\<close> overwrites it.
\<close>

theorem C7_path_slot_merge:
  "resolvePathParameters example_runtime (Inr json_id_123) id_endpoint empty_resolved
     = Inr empty_resolved
   \<and> resolveQueryParameters example_runtime (Inr json_id_123) id_endpoint empty_resolved
     = Inr (empty_resolved\<lparr>rd_queryParams := [(''id'', JStr ''123'')]\<rparr>)
   \<and> resolvePathParameters example_runtime (Inr json_id_other) id_endpoint
         (empty_resolved\<lparr>rd_pathParams := [(''other'', JStr ''x'')]\<rparr>)
     = Inr (empty_resolved\<lparr>rd_pathParams := [(''other'', JStr ''y'')]\<rparr>)"
  using path_not_written query_written path_undeclared_overwritten
  by (intro conjI)

section \<open>Flow executor: failures and recorded results\<close>

lemma validateResponse_unexpected:
  "er_statusCode result \<notin> rsp_statusCode ` set (ep_expectedResponse endpoint) \<Longrightarrow>
     validateResponse endpoint result
       = Inl (Error (''Unexpected status code: '' @ string_of_nat (er_statusCode result)))"
proof -
  assume a: "er_statusCode result \<notin> rsp_statusCode ` set (ep_expectedResponse endpoint)"
  have "find (\<lambda>resp. rsp_statusCode resp = er_statusCode result) (ep_expectedResponse endpoint) = None"
    using a by (force simp: find_None_iff)
  then show ?thesis by (simp add: validateResponse_def)
qed

lemma executeEndpoint_catch:
  "try_block rt col ctx endpoint options = Inl (ctx1, e) \<Longrightarrow>
     executeEndpoint rt col ctx endpoint options
       = (record_result ctx1 endpoint (failure_result col endpoint e), failure_result col endpoint e)"
  by (simp add: executeEndpoint_def Let_def)

lemma try_block_unexpected:
  assumes "try_request rt col ctx endpoint options = Inr (requestConfig, resolvedData, response, bodySize)"
    and "opt_validateResponse options"
    and "resp_status response \<notin> rsp_statusCode ` set (ep_expectedResponse endpoint)"
  shows "try_block rt col ctx endpoint options
     = Inl (record_result ctx endpoint
              (success_result col endpoint requestConfig resolvedData response bodySize),
            Error (''Unexpected status code: '' @ string_of_nat (resp_status response)))"
proof -
  let ?r = "success_result col endpoint requestConfig resolvedData response bodySize"
  have st: "er_statusCode ?r = resp_status response" by (simp add: success_result_def)
  with assms(3) have "validateResponse endpoint ?r
       = Inl (Error (''Unexpected status code: '' @ string_of_nat (resp_status response)))"
    using validateResponse_unexpected[of ?r endpoint] by simp
  with assms(1,2) show ?thesis by (simp add: try_block_def Let_def)
qed

lemma try_request_example:
  "try_request example_runtime (example_collaborators (Inr not_found)) empty_context
     checked_endpoint validating_options
   = Inr (\<lparr>rq_url = ''https://api.example.com/getUser'', rq_method = GET, rq_headers = [],
           rq_queryParams = [], rq_body = JUndefined\<rparr>,
          empty_resolved, not_found, 1)"
  by (simp add: try_request_def validate_def checked_endpoint_def example_endpoint_def
      validateTypedConnections_def resolveEndpointData_def getResolvedParams_def
      default_values_def obj_assign_def resolvedParams_def js_or_def getResolvedBody_def
      example_collaborators_def getFullUrl_def empty_resolved_def example_runtime_def not_found_def)

lemma try_request_failing:
  "try_request example_runtime (example_collaborators (Inl (Error ''fetch failed''))) empty_context
     checked_endpoint validating_options
   = Inl (Error ''fetch failed'')"
  by (simp add: try_request_def validate_def checked_endpoint_def example_endpoint_def
      validateTypedConnections_def resolveEndpointData_def getResolvedParams_def
      default_values_def obj_assign_def resolvedParams_def js_or_def getResolvedBody_def
      example_collaborators_def getFullUrl_def empty_resolved_def example_runtime_def)


lemma string_of_nat_404: "string_of_nat 404 = ''404''"
  by (simp add: string_of_nat.simps digits_def)

lemma executeEndpoint_not_found:
  "executeEndpoint example_runtime (example_collaborators (Inr not_found)) empty_context
     checked_endpoint validating_options
   = (record_result
        (record_result empty_context checked_endpoint
           (success_result (example_collaborators (Inr not_found)) checked_endpoint
              \<lparr>rq_url = ''https://api.example.com/getUser'', rq_method = GET, rq_headers = [],
                rq_queryParams = [], rq_body = JUndefined\<rparr>
              empty_resolved not_found 1))
        checked_endpoint
        (failure_result (example_collaborators (Inr not_found)) checked_endpoint
           (Error ''Unexpected status code: 404'')),
      failure_result (example_collaborators (Inr not_found)) checked_endpoint
        (Error ''Unexpected status code: 404''))"
proof -
  have "resp_status not_found \<notin> rsp_statusCode ` set (ep_expectedResponse checked_endpoint)"
    by (simp add: not_found_def checked_endpoint_def)
  from try_block_unexpected[OF try_request_example _ this]
  have "try_block example_runtime (example_collaborators (Inr not_found)) empty_context
          checked_endpoint validating_options
        = Inl (record_result empty_context checked_endpoint
                 (success_result (example_collaborators (Inr not_found)) checked_endpoint
                    \<lparr>rq_url = ''https://api.example.com/getUser'', rq_method = GET,
                      rq_headers = [], rq_queryParams = [], rq_body = JUndefined\<rparr>
                    empty_resolved not_found 1),
               Error (''Unexpected status code: '' @ string_of_nat (resp_status not_found)))"
    by (simp add: validating_options_def)
  then show ?thesis
    by (simp add: executeEndpoint_catch not_found_def string_of_nat_404)
qed

text \<open>
  C5, as stated: after the failure the successful result is still stored under the
  endpoint's id. For the endpoint \<^verbatim>\<open>getUser\<close>, which expects 200, and a response with the
  status 404, the result stored under \<^verbatim>\<open>getUser\<close> when \<^verbatim>\<open>executeEndpoint\<close> returns is
  the failed one, with \<^verbatim>\<open>success = false\<close>, the status code 0 and the body \<^verbatim>\<open>null\<close>.
\<close>

theorem C5_recorded_result_counterexample:
  "ctx_results
     (fst (executeEndpoint example_runtime (example_collaborators (Inr not_found)) empty_context
             checked_endpoint validating_options)) ''getUser''
   = Some (failure_result (example_collaborators (Inr not_found)) checked_endpoint
             (Error ''Unexpected status code: 404''))
   \<and> \<not> er_success (failure_result (example_collaborators (Inr not_found)) checked_endpoint
                      (Error ''Unexpected status code: 404''))
   \<and> er_statusCode (failure_result (example_collaborators (Inr not_found)) checked_endpoint
                      (Error ''Unexpected status code: 404'')) = 0
   \<and> rs_body (er_responseData (failure_result (example_collaborators (Inr not_found))
                      checked_endpoint (Error ''Unexpected status code: 404''))) = JNull"
  unfolding executeEndpoint_not_found
  by (simp add: record_result_def checked_endpoint_def example_endpoint_def failure_result_def)

text \<open>
  C5, amended. When response validation is opted in and the HTTP call succeeds with a
  status code that is not among the expected responses: the error
  \<^verbatim>\<open>Unexpected status code: N\<close> is thrown only after the successful result (\<^verbatim>\<open>success =
  true\<close>, the real status code and the response body) has been stored in the context under
  the endpoint's id; the \<^verbatim>\<open>catch\<close> block then stores the failed result (\<^verbatim>\<open>success =
  false\<close>, status code 0, that error message) under the same id, in place of the
  successful one, and \<^verbatim>\<open>executeEndpoint\<close> returns it.
\<close>

theorem C5_validation_after_recording:
  assumes "try_request rt col ctx endpoint options
             = Inr (requestConfig, resolvedData, response, bodySize)"
    and "opt_validateResponse options"
    and "resp_status response \<notin> rsp_statusCode ` set (ep_expectedResponse endpoint)"
  shows "try_block rt col ctx endpoint options
       = Inl (record_result ctx endpoint
                (success_result col endpoint requestConfig resolvedData response bodySize),
              Error (''Unexpected status code: '' @ string_of_nat (resp_status response)))
    \<and> ctx_results (record_result ctx endpoint
                     (success_result col endpoint requestConfig resolvedData response bodySize))
         (ep_id endpoint)
       = Some (success_result col endpoint requestConfig resolvedData response bodySize)
    \<and> er_success (success_result col endpoint requestConfig resolvedData response bodySize)
    \<and> er_statusCode (success_result col endpoint requestConfig resolvedData response bodySize)
       = resp_status response
    \<and> rs_body (er_responseData
                 (success_result col endpoint requestConfig resolvedData response bodySize))
       = resp_data response
    \<and> snd (executeEndpoint rt col ctx endpoint options)
       = failure_result col endpoint
           (Error (''Unexpected status code: '' @ string_of_nat (resp_status response)))
    \<and> ctx_results (fst (executeEndpoint rt col ctx endpoint options)) (ep_id endpoint)
       = Some (failure_result col endpoint
                 (Error (''Unexpected status code: '' @ string_of_nat (resp_status response))))
    \<and> \<not> er_success (failure_result col endpoint
                       (Error (''Unexpected status code: '' @ string_of_nat (resp_status response))))
    \<and> er_statusCode (failure_result col endpoint
                       (Error (''Unexpected status code: '' @ string_of_nat (resp_status response))))
       = 0
    \<and> er_error (failure_result col endpoint
                       (Error (''Unexpected status code: '' @ string_of_nat (resp_status response))))
       = Some (''Unexpected status code: '' @ string_of_nat (resp_status response))"
proof -
  note tb = try_block_unexpected[OF assms]
  show ?thesis
    by (simp add: tb executeEndpoint_catch[OF tb] record_result_def success_result_def
        failure_result_def)
qed

theorem C5_validation_after_recording_witness:
  "snd (executeEndpoint example_runtime (example_collaborators (Inr not_found)) empty_context
          checked_endpoint validating_options)
     = failure_result (example_collaborators (Inr not_found)) checked_endpoint
         (Error (''Unexpected status code: '' @ string_of_nat (resp_status not_found)))
   \<and> ctx_results
       (fst (executeEndpoint example_runtime (example_collaborators (Inr not_found)) empty_context
               checked_endpoint validating_options)) (ep_id checked_endpoint)
     = Some (failure_result (example_collaborators (Inr not_found)) checked_endpoint
               (Error (''Unexpected status code: '' @ string_of_nat (resp_status not_found))))"
proof -
  have opt: "opt_validateResponse validating_options" by (simp add: validating_options_def)
  have st: "resp_status not_found \<notin> rsp_statusCode ` set (ep_expectedResponse checked_endpoint)"
    by (simp add: not_found_def checked_endpoint_def)
  note c5 = C5_validation_after_recording[OF try_request_example opt st]
  from c5 show ?thesis by (intro conjI) simp_all
qed

text \<open>
  C6. Whatever statement of the \<^verbatim>\<open>try\<close> block throws (the steps up to the HTTP response,
  among them the AI resolution inside \<^verbatim>\<open>buildRequestConfig\<close> and the transport in
  \<^verbatim>\<open>executeHttpRequest\<close>, or the response validation), \<^verbatim>\<open>executeEndpoint\<close> returns: its
  value is the failed result with \<^verbatim>\<open>success = false\<close>, the status code 0, no headers, no
  query parameters, the body \<^verbatim>\<open>null\<close>, the size 0 and the message of the error, and that
  result is stored in the context under the endpoint's id. The loop of \<^verbatim>\<open>executeFlow\<close>
  then goes on to the next endpoint exactly when \<^verbatim>\<open>continueOnError\<close> is set.
\<close>

theorem C6_errors_become_results:
  "(try_request rt col ctx endpoint options = Inl e
      \<longrightarrow> try_block rt col ctx endpoint options = Inl (ctx, e))
   \<and> (try_block rt col ctx endpoint options = Inl (ctx1, e)
      \<longrightarrow> executeEndpoint rt col ctx endpoint options
            = (record_result ctx1 endpoint (failure_result col endpoint e),
               failure_result col endpoint e)
          \<and> ctx_results (fst (executeEndpoint rt col ctx endpoint options)) (ep_id endpoint)
            = Some (failure_result col endpoint e)
          \<and> executeFlow_loop rt col options ctx (endpoint # rest) results
            = (if opt_continueOnError options
               then executeFlow_loop rt col options
                      (record_result ctx1 endpoint (failure_result col endpoint e)) rest
                      (results @ [failure_result col endpoint e])
               else (record_result ctx1 endpoint (failure_result col endpoint e),
                     results @ [failure_result col endpoint e])))
   \<and> er_endpointId (failure_result col endpoint e) = ep_id endpoint
   \<and> er_success (failure_result col endpoint e) = False
   \<and> er_statusCode (failure_result col endpoint e) = 0
   \<and> er_requestData (failure_result col endpoint e)
       = \<lparr>rq_url = getFullUrl endpoint, rq_method = ep_method endpoint, rq_headers = [],
          rq_queryParams = [], rq_body = JUndefined\<rparr>
   \<and> er_responseData (failure_result col endpoint e)
       = \<lparr>rs_headers = [], rs_body = JNull, rs_size = 0\<rparr>
   \<and> er_error (failure_result col endpoint e) = Some (message e)
   \<and> (validate endpoint = [] \<and> validateTypedConnections endpoint = Inr ()
        \<and> resolveEndpointData rt ctx endpoint = Inr resolvedData0
        \<and> buildRequestConfig col endpoint resolvedData0 = Inl e
      \<longrightarrow> try_request rt col ctx endpoint options = Inl e)
   \<and> (validate endpoint = [] \<and> validateTypedConnections endpoint = Inr ()
        \<and> resolveEndpointData rt ctx endpoint = Inr resolvedData0
        \<and> buildRequestConfig col endpoint resolvedData0 = Inr (requestConfig0, resolvedData)
        \<and> applyAuth col endpoint requestConfig0 = Inr requestConfig
        \<and> executeHttpRequest col requestConfig options = Inl e
      \<longrightarrow> try_request rt col ctx endpoint options = Inl e)"
proof (intro conjI impI)
  assume "try_request rt col ctx endpoint options = Inl e"
  then show "try_block rt col ctx endpoint options = Inl (ctx, e)"
    by (simp add: try_block_def)
next
  assume tb: "try_block rt col ctx endpoint options = Inl (ctx1, e)"
  show ee: "executeEndpoint rt col ctx endpoint options
            = (record_result ctx1 endpoint (failure_result col endpoint e),
               failure_result col endpoint e)"
    by (rule executeEndpoint_catch[OF tb])
  show "ctx_results (fst (executeEndpoint rt col ctx endpoint options)) (ep_id endpoint)
            = Some (failure_result col endpoint e)"
    by (simp add: ee record_result_def)
  show "executeFlow_loop rt col options ctx (endpoint # rest) results
            = (if opt_continueOnError options
               then executeFlow_loop rt col options
                      (record_result ctx1 endpoint (failure_result col endpoint e)) rest
                      (results @ [failure_result col endpoint e])
               else (record_result ctx1 endpoint (failure_result col endpoint e),
                     results @ [failure_result col endpoint e]))"
    by (simp add: ee failure_result_def)
next
  show "er_endpointId (failure_result col endpoint e) = ep_id endpoint"
    "er_success (failure_result col endpoint e) = False"
    "er_statusCode (failure_result col endpoint e) = 0"
    "er_requestData (failure_result col endpoint e)
       = \<lparr>rq_url = getFullUrl endpoint, rq_method = ep_method endpoint, rq_headers = [],
          rq_queryParams = [], rq_body = JUndefined\<rparr>"
    "er_responseData (failure_result col endpoint e)
       = \<lparr>rs_headers = [], rs_body = JNull, rs_size = 0\<rparr>"
    "er_error (failure_result col endpoint e) = Some (message e)"
    by (simp_all add: failure_result_def)
next
  assume "validate endpoint = [] \<and> validateTypedConnections endpoint = Inr ()
        \<and> resolveEndpointData rt ctx endpoint = Inr resolvedData0
        \<and> buildRequestConfig col endpoint resolvedData0 = Inl e"
  then show "try_request rt col ctx endpoint options = Inl e"
    by (simp add: try_request_def)
next
  assume "validate endpoint = [] \<and> validateTypedConnections endpoint = Inr ()
        \<and> resolveEndpointData rt ctx endpoint = Inr resolvedData0
        \<and> buildRequestConfig col endpoint resolvedData0 = Inr (requestConfig0, resolvedData)
        \<and> applyAuth col endpoint requestConfig0 = Inr requestConfig
        \<and> executeHttpRequest col requestConfig options = Inl e"
  then show "try_request rt col ctx endpoint options = Inl e"
    by (simp add: try_request_def)
qed

theorem C6_errors_become_results_witness:
  "try_request example_runtime (example_collaborators (Inl (Error ''fetch failed'')))
       empty_context checked_endpoint validating_options = Inl (Error ''fetch failed'')
   \<and> executeEndpoint example_runtime (example_collaborators (Inl (Error ''fetch failed'')))
       empty_context checked_endpoint validating_options
     = (record_result empty_context checked_endpoint
          (failure_result (example_collaborators (Inl (Error ''fetch failed''))) checked_endpoint
             (Error ''fetch failed'')),
        failure_result (example_collaborators (Inl (Error ''fetch failed''))) checked_endpoint
          (Error ''fetch failed''))
   \<and> er_error (failure_result (example_collaborators (Inl (Error ''fetch failed'')))
                 checked_endpoint (Error ''fetch failed'')) = Some ''fetch failed''"
proof -
  note c6 = C6_errors_become_results[of example_runtime
      "example_collaborators (Inl (Error ''fetch failed''))" empty_context checked_endpoint
      validating_options "Error ''fetch failed''" empty_context]
  from c6[THEN conjunct1, THEN mp, OF try_request_failing]
  have tb: "try_block example_runtime (example_collaborators (Inl (Error ''fetch failed'')))
       empty_context checked_endpoint validating_options
     = Inl (empty_context, Error ''fetch failed'')" .
  from c6[THEN conjunct2, THEN conjunct1, THEN mp, OF tb, THEN conjunct1]
  have ee: "executeEndpoint example_runtime (example_collaborators (Inl (Error ''fetch failed'')))
       empty_context checked_endpoint validating_options
     = (record_result empty_context checked_endpoint
          (failure_result (example_collaborators (Inl (Error ''fetch failed''))) checked_endpoint
             (Error ''fetch failed'')),
        failure_result (example_collaborators (Inl (Error ''fetch failed''))) checked_endpoint
          (Error ''fetch failed''))" .
  have er: "er_error (failure_result (example_collaborators (Inl (Error ''fetch failed'')))
                 checked_endpoint (Error ''fetch failed'')) = Some ''fetch failed''"
    by (simp add: failure_result_def)
  from try_request_failing ee er show ?thesis by (intro conjI)
qed

section \<open>Dependency resolver: ordering, cycles, stability\<close>

lemma ordered_snoc:
  assumes "ordered E xs" and "set (dependencies E e) \<subseteq> set xs"
  shows "ordered E (xs @ [e])"
  unfolding ordered_def
proof (intro allI impI)
  fix i assume "i < length (xs @ [e])"
  then consider "i < length xs" | "i = length xs" by fastforce
  then show "set (dependencies E ((xs @ [e]) ! i)) \<subseteq> set (take i (xs @ [e]))"
  proof cases
    case 1
    then show ?thesis using assms(1) by (auto simp: ordered_def nth_append)
  next
    case 2
    then show ?thesis using assms(2) by (auto simp: nth_append)
  qed
qed

lemma set_dependencies:
  "set (dependencies E e) = {d. \<exists>c \<in> set (ep_connections e). dependency E c = Some d}"
  by (force simp: dependencies_def List.map_filter_def)

lemma dependency_first: "dependency E c = Some d \<Longrightarrow> first_with_id E d"
  unfolding dependency_def first_with_id_def by (auto simp: find_Some_iff)

lemma first_in_set: "first_with_id E e \<Longrightarrow> e \<in> set E"
  unfolding first_with_id_def by (auto simp: find_Some_iff)

lemma first_unique: "first_with_id E a \<Longrightarrow> first_with_id E b \<Longrightarrow> ep_id a = ep_id b \<Longrightarrow> a = b"
proof -
  assume a: "first_with_id E a" and b: "first_with_id E b" and eq: "ep_id a = ep_id b"
  from a have "find (\<lambda>x. ep_id x = ep_id b) E = Some a" by (simp add: first_with_id_def eq)
  moreover from b have "find (\<lambda>x. ep_id x = ep_id b) E = Some b" by (simp add: first_with_id_def)
  ultimately show "a = b" by simp
qed

lemma visit_frame:
  "visit n E e st = Some (Inr st') \<Longrightarrow>
     (ep_id e \<notin> st_visited st \<Longrightarrow> ep_id e \<notin> st_visiting st \<Longrightarrow> first_with_id E e) \<Longrightarrow>
     sort_inv E st \<Longrightarrow>
     sort_inv E st' \<and> st_visiting st' = st_visiting st \<and> ep_id e \<in> st_visited st'
     \<and> (\<exists>new. st_sorted st' = st_sorted st @ new
            \<and> (\<forall>x \<in> set new. (e, x) \<in> (first_depends_on E)\<^sup>*))"
  "visit_connections n E cs st = Some (Inr st') \<Longrightarrow>
     sort_inv E st \<Longrightarrow>
     sort_inv E st' \<and> st_visiting st' = st_visiting st
     \<and> (\<forall>c \<in> set cs. \<forall>d. dependency E c = Some d \<longrightarrow> ep_id d \<in> st_visited st')
     \<and> (\<exists>new. st_sorted st' = st_sorted st @ new
            \<and> (\<forall>x \<in> set new. \<exists>c \<in> set cs. \<exists>d. dependency E c = Some d
                   \<and> (d, x) \<in> (first_depends_on E)\<^sup>*))"
proof (induction n E e st and n E cs st arbitrary: st' and st' rule: visit_visit_connections.induct)
  case (1 endpoints endpoint st)
  then show ?case by simp
next
  case (2 n endpoints endpoint st)
  show ?case
  proof (cases "ep_id endpoint \<in> st_visiting st \<or> ep_id endpoint \<in> st_visited st")
    case True
    with "2.prems" show ?thesis by (auto split: if_splits)
  next
    case False
    let ?st1 = "st\<lparr>st_visiting := insert (ep_id endpoint) (st_visiting st)\<rparr>"
    from False "2.prems"(1) obtain st2 where
      vc: "visit_connections n endpoints (ep_connections endpoint) ?st1 = Some (Inr st2)"
      and st': "st' = st2\<lparr>st_visiting := st_visiting st2 - {ep_id endpoint},
                            st_visited := insert (ep_id endpoint) (st_visited st2),
                            st_sorted := st_sorted st2 @ [endpoint]\<rparr>"
      by (auto split: option.splits sum.splits)
    have inv1: "sort_inv endpoints ?st1"
      using "2.prems"(3) False by (auto simp: sort_inv_def)
    from "2.IH"[OF _ _ vc inv1] False
    have inv2: "sort_inv endpoints st2" and vis2: "st_visiting st2 = st_visiting ?st1"
      and deps2: "\<forall>c \<in> set (ep_connections endpoint). \<forall>d. dependency endpoints c = Some d
                    \<longrightarrow> ep_id d \<in> st_visited st2"
      and ex: "\<exists>new. st_sorted st2 = st_sorted ?st1 @ new
                \<and> (\<forall>x \<in> set new. \<exists>c \<in> set (ep_connections endpoint). \<exists>d.
                       dependency endpoints c = Some d \<and> (d, x) \<in> (first_depends_on endpoints)\<^sup>*)"
      by auto
    have fst: "first_with_id endpoints endpoint" using "2.prems"(2) False by auto
    have notin: "ep_id endpoint \<notin> st_visited st2"
      using inv2 vis2 by (auto simp: sort_inv_def)
    have sub: "set (dependencies endpoints endpoint) \<subseteq> set (st_sorted st2)"
    proof
      fix d assume "d \<in> set (dependencies endpoints endpoint)"
      then obtain c where c: "c \<in> set (ep_connections endpoint)" and d: "dependency endpoints c = Some d"
        by (auto simp: set_dependencies)
      with deps2 have "ep_id d \<in> st_visited st2" by blast
      then obtain y where y: "y \<in> set (st_sorted st2)" and "ep_id y = ep_id d"
        using inv2 by (auto simp: sort_inv_def)
      moreover from y inv2 have "first_with_id endpoints y" by (auto simp: sort_inv_def)
      ultimately have "y = d" using dependency_first[OF d] first_unique by blast
      with y show "d \<in> set (st_sorted st2)" by simp
    qed
    have ord: "ordered endpoints (st_sorted st2 @ [endpoint])"
      using ordered_snoc[OF _ sub] inv2 by (simp add: sort_inv_def)
    have "sort_inv endpoints st'"
      using inv2 fst notin ord unfolding st' sort_inv_def by auto
    moreover have "st_visiting st' = st_visiting st"
      using vis2 False unfolding st' by auto
    moreover have "ep_id endpoint \<in> st_visited st'" unfolding st' by simp
    moreover have "\<exists>new. st_sorted st' = st_sorted st @ new
                      \<and> (\<forall>x \<in> set new. (endpoint, x) \<in> (first_depends_on endpoints)\<^sup>*)"
    proof -
      from ex obtain new where new: "st_sorted st2 = st_sorted st @ new"
        and reach: "\<forall>x \<in> set new. \<exists>c \<in> set (ep_connections endpoint). \<exists>d.
                       dependency endpoints c = Some d \<and> (d, x) \<in> (first_depends_on endpoints)\<^sup>*"
        by auto
      have "\<forall>x \<in> set (new @ [endpoint]). (endpoint, x) \<in> (first_depends_on endpoints)\<^sup>*"
      proof
        fix x assume "x \<in> set (new @ [endpoint])"
        then consider "x \<in> set new" | "x = endpoint" by auto
        then show "(endpoint, x) \<in> (first_depends_on endpoints)\<^sup>*"
        proof cases
          case 1
          with reach obtain c d where cd: "c \<in> set (ep_connections endpoint)"
            "dependency endpoints c = Some d" and dx: "(d, x) \<in> (first_depends_on endpoints)\<^sup>*" by blast
          from cd have "(endpoint, d) \<in> first_depends_on endpoints"
            using fst by (auto simp: first_depends_on_def set_dependencies)
          then show ?thesis using dx by (rule converse_rtrancl_into_rtrancl)
        next
          case 2
          then show ?thesis by simp
        qed
      qed
      moreover have "st_sorted st' = st_sorted st @ (new @ [endpoint])"
        using new unfolding st' by simp
      ultimately show ?thesis by blast
    qed
    ultimately show ?thesis by blast
  qed
next
  case (3 n endpoints st)
  then show ?case by simp
next
  case (4 n endpoints connection rest st)
  show ?case
  proof (cases "find (\<lambda>ep. ep_id ep = sourceNodeId connection) endpoints")
    case None
    with "4.IH"(1)[OF None] "4.prems" show ?thesis by (auto simp: dependency_def)
  next
    case (Some d)
    with "4.prems"(1) obtain st1 where
      v: "visit n endpoints d st = Some (Inr st1)"
      and vc: "visit_connections n endpoints rest st1 = Some (Inr st')"
      by (auto split: option.splits sum.splits)
    have fd: "first_with_id endpoints d"
      using Some dependency_first[of endpoints connection d] by (simp add: dependency_def)
    from "4.IH"(2)[OF Some v _ "4.prems"(2)] fd
    have inv1: "sort_inv endpoints st1" and vis1: "st_visiting st1 = st_visiting st"
      and d1: "ep_id d \<in> st_visited st1"
      and ex1: "\<exists>new. st_sorted st1 = st_sorted st @ new
                  \<and> (\<forall>x \<in> set new. (d, x) \<in> (first_depends_on endpoints)\<^sup>*)" by auto
    from "4.IH"(3)[OF Some v refl vc inv1]
    have inv': "sort_inv endpoints st'" and vis': "st_visiting st' = st_visiting st1"
      and deps': "\<forall>c \<in> set rest. \<forall>d. dependency endpoints c = Some d \<longrightarrow> ep_id d \<in> st_visited st'"
      and ex': "\<exists>new. st_sorted st' = st_sorted st1 @ new
                  \<and> (\<forall>x \<in> set new. \<exists>c \<in> set rest. \<exists>d. dependency endpoints c = Some d
                         \<and> (d, x) \<in> (first_depends_on endpoints)\<^sup>*)" by auto
    have dv: "ep_id d \<in> st_visited st'"
      using d1 ex' inv1 inv' by (auto simp: sort_inv_def)
    have dep: "dependency endpoints connection = Some d" using Some by (simp add: dependency_def)
    from ex1 ex' obtain new1 new2 where
      n1: "st_sorted st1 = st_sorted st @ new1"
      and r1: "\<forall>x \<in> set new1. (d, x) \<in> (first_depends_on endpoints)\<^sup>*"
      and n2: "st_sorted st' = st_sorted st1 @ new2"
      and r2: "\<forall>x \<in> set new2. \<exists>c \<in> set rest. \<exists>d. dependency endpoints c = Some d
                         \<and> (d, x) \<in> (first_depends_on endpoints)\<^sup>*" by blast
    have "st_sorted st' = st_sorted st @ (new1 @ new2)" using n1 n2 by simp
    moreover have "\<forall>x \<in> set (new1 @ new2). \<exists>c \<in> set (connection # rest). \<exists>d.
        dependency endpoints c = Some d \<and> (d, x) \<in> (first_depends_on endpoints)\<^sup>*"
      using r1 r2 dep by auto
    ultimately have "\<exists>new. st_sorted st' = st_sorted st @ new
        \<and> (\<forall>x \<in> set new. \<exists>c \<in> set (connection # rest). \<exists>d.
        dependency endpoints c = Some d \<and> (d, x) \<in> (first_depends_on endpoints)\<^sup>*)" by blast
    moreover have "\<forall>c \<in> set (connection # rest). \<forall>d. dependency endpoints c = Some d
        \<longrightarrow> ep_id d \<in> st_visited st'"
      using deps' dv dep by auto
    ultimately show ?thesis
      using inv' vis' vis1 by simp
  qed
qed

lemma card_ids_less:
  assumes "i \<in> ep_id ` set E" "i \<notin> V" "card (ep_id ` set E - V) < Suc n"
  shows "card (ep_id ` set E - insert i V) < n"
proof -
  have "ep_id ` set E - insert i V = (ep_id ` set E - V) - {i}" by auto
  moreover have "i \<in> ep_id ` set E - V" using assms by simp
  moreover have "finite (ep_id ` set E - V)" by simp
  ultimately have "card (ep_id ` set E - insert i V) < card (ep_id ` set E - V)"
    using card_Diff1_less[of "ep_id ` set E - V" i] by simp
  then show ?thesis using assms(3) by arith
qed

lemma visit_total:
  "sort_inv E st \<Longrightarrow> first_with_id E e \<or> ep_id e \<in> st_visited st \<Longrightarrow>
     card (ep_id ` set E - st_visiting st) < n \<Longrightarrow> visit n E e st \<noteq> None"
  "sort_inv E st \<Longrightarrow> card (ep_id ` set E - st_visiting st) < n \<Longrightarrow>
     visit_connections n E cs st \<noteq> None"
proof (induction n E e st and n E cs st rule: visit_visit_connections.induct)
  case (1 endpoints endpoint st)
  then show ?case by simp
next
  case (2 n endpoints endpoint st)
  show ?case
  proof (cases "ep_id endpoint \<in> st_visiting st \<or> ep_id endpoint \<in> st_visited st")
    case True
    then show ?thesis by auto
  next
    case False
    let ?st1 = "st\<lparr>st_visiting := insert (ep_id endpoint) (st_visiting st)\<rparr>"
    have inv1: "sort_inv endpoints ?st1"
      using "2.prems"(1) False by (auto simp: sort_inv_def)
    have "ep_id endpoint \<in> ep_id ` set endpoints"
      using "2.prems"(2) False first_in_set by blast
    then have "card (ep_id ` set endpoints - st_visiting ?st1) < n"
      using card_ids_less[of "ep_id endpoint" endpoints "st_visiting st" n] False "2.prems"(3)
      by simp
    from "2.IH"[OF _ _ inv1 this] False
    have "visit_connections n endpoints (ep_connections endpoint) ?st1 \<noteq> None" by simp
    then show ?thesis using False by (auto split: option.splits sum.splits)
  qed
next
  case (3 n endpoints st)
  then show ?case by simp
next
  case (4 n endpoints connection rest st)
  show ?case
  proof (cases "find (\<lambda>ep. ep_id ep = sourceNodeId connection) endpoints")
    case None
    with "4.IH"(1)[OF None "4.prems"] show ?thesis by simp
  next
    case (Some d)
    have fd: "first_with_id endpoints d"
      using Some dependency_first[of endpoints connection d] by (simp add: dependency_def)
    from "4.IH"(2)[OF Some "4.prems"(1) _ "4.prems"(2)] fd
    obtain r where r: "visit n endpoints d st = Some r" by auto
    show ?thesis
    proof (cases r)
      case (Inl e)
      with r Some show ?thesis by simp
    next
      case (Inr st1)
      with r have v: "visit n endpoints d st = Some (Inr st1)" by simp
      from visit_frame(1)[OF v _ "4.prems"(1)] fd
      have inv1: "sort_inv endpoints st1" and vis1: "st_visiting st1 = st_visiting st" by auto
      from "4.IH"(3)[OF Some v refl inv1] "4.prems"(2) vis1
      have "visit_connections n endpoints rest st1 \<noteq> None" by simp
      with v Some show ?thesis by simp
    qed
  qed
qed

lemma visit_error:
  "visit n E e st = Some (Inl err) \<Longrightarrow> sort_inv E st \<Longrightarrow> first_with_id E e \<Longrightarrow>
     (\<forall>v \<in> st_visiting st. \<exists>x. first_with_id E x \<and> ep_id x = v \<and> (x, e) \<in> (first_depends_on E)\<^sup>+) \<Longrightarrow>
     \<exists>x. err = circular (ep_id x) \<and> (x, x) \<in> (first_depends_on E)\<^sup>+"
  "visit_connections n E cs st = Some (Inl err) \<Longrightarrow> sort_inv E st \<Longrightarrow> first_with_id E e0 \<Longrightarrow>
     set cs \<subseteq> set (ep_connections e0) \<Longrightarrow> on_path E st e0 \<Longrightarrow>
     \<exists>x. err = circular (ep_id x) \<and> (x, x) \<in> (first_depends_on E)\<^sup>+"
proof (induction n E e st and n E cs st arbitrary: err and err e0 rule: visit_visit_connections.induct)
  case (1 endpoints endpoint st)
  then show ?case by simp
next
  case (2 n endpoints endpoint st)
  show ?case
  proof (cases "ep_id endpoint \<in> st_visiting st")
    case True
    with "2.prems"(1) have err: "err = circular (ep_id endpoint)" by simp
    from True "2.prems"(4) obtain x where x: "first_with_id endpoints x" "ep_id x = ep_id endpoint"
      "(x, endpoint) \<in> (first_depends_on endpoints)\<^sup>+" by blast
    then have "x = endpoint" using first_unique "2.prems"(3) by blast
    with x err show ?thesis by blast
  next
    case False
    with "2.prems"(1) have nv: "ep_id endpoint \<notin> st_visited st" by (auto split: if_splits)
    let ?st1 = "st\<lparr>st_visiting := insert (ep_id endpoint) (st_visiting st)\<rparr>"
    from False nv "2.prems"(1) have
      vc: "visit_connections n endpoints (ep_connections endpoint) ?st1 = Some (Inl err)"
      by (auto split: option.splits sum.splits)
    have inv1: "sort_inv endpoints ?st1"
      using "2.prems"(2) False nv by (auto simp: sort_inv_def)
    have path: "on_path endpoints ?st1 endpoint"
      unfolding on_path_def
    proof
      fix v assume "v \<in> st_visiting ?st1"
      then consider "v = ep_id endpoint" | "v \<in> st_visiting st" by auto
      then show "\<exists>x. first_with_id endpoints x \<and> ep_id x = v \<and> (x, endpoint) \<in> (first_depends_on endpoints)\<^sup>*"
      proof cases
        case 1
        then show ?thesis using "2.prems"(3) by blast
      next
        case 2
        with "2.prems"(4) obtain x where x: "first_with_id endpoints x" "ep_id x = v"
          "(x, endpoint) \<in> (first_depends_on endpoints)\<^sup>+" by blast
        from x(3) have "(x, endpoint) \<in> (first_depends_on endpoints)\<^sup>*" by (rule trancl_into_rtrancl)
        with x show ?thesis by blast
      qed
    qed
    from "2.IH"[OF False nv vc inv1 "2.prems"(3) _ path] show ?thesis by simp
  qed
next
  case (3 n endpoints st)
  then show ?case by simp
next
  case (4 n endpoints connection rest st)
  show ?case
  proof (cases "find (\<lambda>ep. ep_id ep = sourceNodeId connection) endpoints")
    case None
    with "4.prems"(1) have "visit_connections n endpoints rest st = Some (Inl err)" by simp
    from "4.IH"(1)[OF None this "4.prems"(2,3) _ "4.prems"(5)] "4.prems"(4)
    show ?thesis by simp
  next
    case (Some d)
    have dep: "dependency endpoints connection = Some d" using Some by (simp add: dependency_def)
    have fd: "first_with_id endpoints d" using dependency_first[OF dep] .
    have edge: "(e0, d) \<in> first_depends_on endpoints"
      using "4.prems"(3,4) dep by (auto simp: first_depends_on_def set_dependencies)
    have pathd: "\<forall>v \<in> st_visiting st. \<exists>x. first_with_id endpoints x \<and> ep_id x = v
        \<and> (x, d) \<in> (first_depends_on endpoints)\<^sup>+"
    proof
      fix v assume "v \<in> st_visiting st"
      with "4.prems"(5) obtain x where x: "first_with_id endpoints x" "ep_id x = v"
        "(x, e0) \<in> (first_depends_on endpoints)\<^sup>*" unfolding on_path_def by blast
      from x(3) edge have "(x, d) \<in> (first_depends_on endpoints)\<^sup>+" by (rule rtrancl_into_trancl1)
      with x show "\<exists>x. first_with_id endpoints x \<and> ep_id x = v
        \<and> (x, d) \<in> (first_depends_on endpoints)\<^sup>+" by blast
    qed
    from "4.prems"(1) Some obtain r where r: "visit n endpoints d st = Some r"
      by (auto split: option.splits)
    show ?thesis
    proof (cases r)
      case (Inl e)
      with r Some "4.prems"(1) have "visit n endpoints d st = Some (Inl err)" by simp
      from "4.IH"(2)[OF Some this "4.prems"(2) fd pathd] show ?thesis .
    next
      case (Inr st1)
      with r have v: "visit n endpoints d st = Some (Inr st1)" by simp
      with Some "4.prems"(1) have vc: "visit_connections n endpoints rest st1 = Some (Inl err)"
        by simp
      from visit_frame(1)[OF v _ "4.prems"(2)] fd
      have inv1: "sort_inv endpoints st1" and vis1: "st_visiting st1 = st_visiting st" by auto
      have path1: "on_path endpoints st1 e0" using "4.prems"(5) vis1 by (simp add: on_path_def)
      from "4.IH"(3)[OF Some v refl vc inv1 "4.prems"(3) _ path1] "4.prems"(4)
      show ?thesis by simp
    qed
  qed
qed

lemma first_with_id_append:
  "\<forall>x \<in> set pre. ep_id x \<noteq> ep_id e \<Longrightarrow> first_with_id (pre @ e # rest) e"
  by (induction pre) (auto simp: first_with_id_def)

lemma visited_mono:
  "sort_inv E st \<Longrightarrow> sort_inv E st' \<Longrightarrow> st_sorted st' = st_sorted st @ new \<Longrightarrow>
     st_visited st \<subseteq> st_visited st'"
  by (auto simp: sort_inv_def)

lemma visit_all_spec:
  assumes "E = pre @ es @ post" "sort_inv E st" "st_visiting st = {}"
    "\<forall>x \<in> set pre. ep_id x \<in> st_visited st" "card (ep_id ` set E) < n"
  shows "case visit_all n E es st of
           None \<Rightarrow> False
         | Some (Inl err) \<Rightarrow> \<exists>x. err = circular (ep_id x) \<and> (x, x) \<in> (first_depends_on E)\<^sup>+
         | Some (Inr st') \<Rightarrow>
             sort_inv E st' \<and> st_visiting st' = {}
             \<and> (\<forall>x \<in> set (pre @ es). ep_id x \<in> st_visited st')
             \<and> (\<exists>new. st_sorted st' = st_sorted st @ new
                  \<and> (\<forall>x \<in> set new. \<exists>r \<in> set es. (r, x) \<in> (first_depends_on E)\<^sup>*))"
  using assms
proof (induction es arbitrary: pre st)
  case Nil
  then show ?case by simp
next
  case (Cons e rest)
  have fe: "first_with_id E e \<or> ep_id e \<in> st_visited st"
  proof (cases "ep_id e \<in> st_visited st")
    case True then show ?thesis by simp
  next
    case False
    with Cons.prems(4) have "\<forall>x \<in> set pre. ep_id x \<noteq> ep_id e" by auto
    then show ?thesis using first_with_id_append[of pre e "rest @ post"] Cons.prems(1) by simp
  qed
  have card: "card (ep_id ` set E - st_visiting st) < n"
    using Cons.prems(3,5) by simp
  from visit_total(1)[OF Cons.prems(2) fe card]
  obtain r where r: "visit n E e st = Some r" by auto
  show ?case
  proof (cases r)
    case (Inl err)
    with r have v: "visit n E e st = Some (Inl err)" by simp
    have "first_with_id E e"
    proof (rule ccontr)
      assume "\<not> first_with_id E e"
      with fe have vis: "ep_id e \<in> st_visited st" by simp
      from card obtain m where "n = Suc m" by (cases n) auto
      with vis Cons.prems(3) have "visit n E e st = Some (Inr st)" by simp
      with v show False by simp
    qed
    from visit_error(1)[OF v Cons.prems(2) this] Cons.prems(3)
    have "\<exists>x. err = circular (ep_id x) \<and> (x, x) \<in> (first_depends_on E)\<^sup>+" by simp
    then show ?thesis using v by simp
  next
    case (Inr st1)
    with r have v: "visit n E e st = Some (Inr st1)" by simp
    from visit_frame(1)[OF v _ Cons.prems(2)] fe
    obtain new1 where inv1: "sort_inv E st1" and vis1: "st_visiting st1 = st_visiting st"
      and e1: "ep_id e \<in> st_visited st1"
      and n1: "st_sorted st1 = st_sorted st @ new1"
      and r1: "\<forall>x \<in> set new1. (e, x) \<in> (first_depends_on E)\<^sup>*" by auto
    have mono: "st_visited st \<subseteq> st_visited st1"
      using visited_mono[OF Cons.prems(2) inv1 n1] .
    have E': "E = (pre @ [e]) @ rest @ post" using Cons.prems(1) by simp
    have pre': "\<forall>x \<in> set (pre @ [e]). ep_id x \<in> st_visited st1"
      using Cons.prems(4) mono e1 by auto
    have vis1': "st_visiting st1 = {}" using vis1 Cons.prems(3) by simp
    note IH = Cons.IH[OF E' inv1 vis1' pre' Cons.prems(5)]
    show ?thesis
    proof (cases "visit_all n E rest st1")
      case None
      with IH show ?thesis by simp
    next
      case (Some r2)
      show ?thesis
      proof (cases r2)
        case (Inl err)
        with Some IH v show ?thesis by simp
      next
        case (Inr st2)
        with Some IH obtain new2 where inv2: "sort_inv E st2" and vis2: "st_visiting st2 = {}"
          and all2: "\<forall>x \<in> set ((pre @ [e]) @ rest). ep_id x \<in> st_visited st2"
          and n2: "st_sorted st2 = st_sorted st1 @ new2"
          and r2: "\<forall>x \<in> set new2. \<exists>r \<in> set rest. (r, x) \<in> (first_depends_on E)\<^sup>*" by auto
        have "st_sorted st2 = st_sorted st @ (new1 @ new2)" using n1 n2 by simp
        moreover have "\<forall>x \<in> set (new1 @ new2). \<exists>r \<in> set (e # rest). (r, x) \<in> (first_depends_on E)\<^sup>*"
          using r1 r2 by auto
        ultimately have "\<exists>new. st_sorted st2 = st_sorted st @ new
           \<and> (\<forall>x \<in> set new. \<exists>r \<in> set (e # rest). (r, x) \<in> (first_depends_on E)\<^sup>*)" by blast
        then show ?thesis using Some Inr v inv2 vis2 all2 by simp
      qed
    qed
  qed
qed

lemma visit_all_append:
  "visit_all n E (xs @ ys) st =
     (case visit_all n E xs st of
        None \<Rightarrow> None
      | Some (Inl e) \<Rightarrow> Some (Inl e)
      | Some (Inr st1) \<Rightarrow> visit_all n E ys st1)"
  by (induction xs arbitrary: st) (auto split: option.splits sum.splits)

lemma sort_inv_init: "sort_inv E \<lparr>st_sorted = [], st_visited = {}, st_visiting = {}\<rparr>"
  by (simp add: sort_inv_def ordered_def)

lemma card_ids: "card (ep_id ` set E) < Suc (length E)"
  by (meson card_image_le card_length le_imp_less_Suc le_trans List.finite_set)

lemma first_in_sorted:
  assumes "sort_inv E st" "ep_id e \<in> st_visited st" "first_with_id E e"
  shows "e \<in> set (st_sorted st)"
proof -
  from assms(1,2) obtain y where y: "y \<in> set (st_sorted st)" "ep_id y = ep_id e"
    by (auto simp: sort_inv_def)
  with assms(1) have "first_with_id E y" by (auto simp: sort_inv_def)
  with y assms(3) have "y = e" using first_unique by blast
  with y show ?thesis by simp
qed




lemma distinct_first: "distinct (map ep_id E) \<Longrightarrow> first_with_id E e = (e \<in> set E)"
proof
  assume "first_with_id E e" then show "e \<in> set E" by (rule first_in_set)
next
  assume d: "distinct (map ep_id E)" and e: "e \<in> set E"
  then show "first_with_id E e"
  proof (induction E)
    case Nil then show ?case by simp
  next
    case (Cons x E)
    then show ?case by (auto simp: first_with_id_def)
  qed
qed

lemma distinct_depends_on: "distinct (map ep_id E) \<Longrightarrow> first_depends_on E = depends_on E"
  by (auto simp: first_depends_on_def depends_on_def distinct_first)



lemma sort_example_unstable: "sortEndpointsByDependencies
     [example_endpoint ''A'' [''C''], example_endpoint ''B'' [], example_endpoint ''C'' []]
   = Some (Inr [example_endpoint ''C'' [], example_endpoint ''A'' [''C''], example_endpoint ''B'' []])"
  by (simp add: sortEndpointsByDependencies_def example_endpoint_def example_connection_def)





text \<open>
  C9, as stated: two endpoints without an ordering constraint between them keep their
  input order. In the input [A, B, C] with A depending on C, neither of B and C is
  reachable from the other and B precedes C, but the resolver visits C while it visits A
  and returns [C, A, B].
\<close>

theorem C9_stability_counterexample:
  "sortEndpointsByDependencies
     [example_endpoint ''A'' [''C''], example_endpoint ''B'' [], example_endpoint ''C'' []]
   = Some (Inr [example_endpoint ''C'' [], example_endpoint ''A'' [''C''], example_endpoint ''B'' []])
   \<and> (example_endpoint ''B'' [], example_endpoint ''C'' [])
        \<notin> (depends_on [example_endpoint ''A'' [''C''], example_endpoint ''B'' [],
                         example_endpoint ''C'' []])\<^sup>*
   \<and> (example_endpoint ''C'' [], example_endpoint ''B'' [])
        \<notin> (depends_on [example_endpoint ''A'' [''C''], example_endpoint ''B'' [],
                         example_endpoint ''C'' []])\<^sup>*"
proof -
  let ?E = "[example_endpoint ''A'' [''C''], example_endpoint ''B'' [], example_endpoint ''C'' []]"
  have noB: "(example_endpoint ''B'' [], x) \<notin> depends_on ?E" for x
    by (simp add: depends_on_def dependencies_def List.map_filter_simps example_endpoint_def)
  have noC: "(example_endpoint ''C'' [], x) \<notin> depends_on ?E" for x
    by (simp add: depends_on_def dependencies_def List.map_filter_simps example_endpoint_def)
  have neq: "example_endpoint ''B'' [] \<noteq> example_endpoint ''C'' []"
    by (simp add: example_endpoint_def)
  have "(example_endpoint ''B'' [], example_endpoint ''C'' []) \<notin> (depends_on ?E)\<^sup>*"
    using noB neq by (auto elim: converse_rtranclE)
  moreover have "(example_endpoint ''C'' [], example_endpoint ''B'' []) \<notin> (depends_on ?E)\<^sup>*"
    using noC neq by (auto elim: converse_rtranclE)
  ultimately show ?thesis using sort_example_unstable by blast
qed

text \<open>
  C9, amended. For endpoints with distinct ids, when the resolver returns: if \<open>a\<close> precedes
  \<open>b\<close> in the input and \<open>b\<close> is reachable through connection edges neither from \<open>a\<close> nor
  from any endpoint that precedes \<open>a\<close> in the input, then \<open>a\<close> precedes \<open>b\<close> in the
  result.
\<close>

theorem C9_order_preserved:
  assumes dist: "distinct (map ep_id endpoints)"
    and res: "sortEndpointsByDependencies endpoints = Some (Inr out)"
    and ij: "i < j" "j < length endpoints"
    and unreach: "\<forall>k\<le>i. (endpoints ! k, endpoints ! j) \<notin> (depends_on endpoints)\<^sup>*"
  shows "\<exists>i' j'. i' < j' \<and> j' < length out
           \<and> out ! i' = endpoints ! i \<and> out ! j' = endpoints ! j"
proof -
  let ?n = "Suc (length endpoints)"
  let ?st0 = "\<lparr>st_sorted = [], st_visited = {}, st_visiting = {}\<rparr>"
  let ?pre = "take (Suc i) endpoints" and ?post = "drop (Suc i) endpoints"
  let ?a = "endpoints ! i" and ?b = "endpoints ! j"
  note rel = distinct_depends_on[OF dist]
  from res obtain st where st: "visit_all ?n endpoints endpoints ?st0 = Some (Inr st)"
    and out: "out = st_sorted st"
    by (auto simp: sortEndpointsByDependencies_def split: option.splits sum.splits)
  have split: "endpoints = ?pre @ ?post" by simp
  from st have "visit_all ?n endpoints (?pre @ ?post) ?st0 = Some (Inr st)" by simp
  then obtain st1 where st1: "visit_all ?n endpoints ?pre ?st0 = Some (Inr st1)"
    and st2: "visit_all ?n endpoints ?post st1 = Some (Inr st)"
    unfolding visit_all_append by (auto split: option.splits sum.splits)
  have E1: "endpoints = [] @ ?pre @ ?post" by simp
  from visit_all_spec[OF E1 sort_inv_init _ _ card_ids] st1
  obtain new1 where inv1: "sort_inv endpoints st1" and vis1: "st_visiting st1 = {}"
    and all1: "\<forall>x \<in> set ?pre. ep_id x \<in> st_visited st1"
    and n1: "st_sorted st1 = new1"
    and r1: "\<forall>x \<in> set new1. \<exists>r \<in> set ?pre. (r, x) \<in> (first_depends_on endpoints)\<^sup>*"
    by auto
  have E2: "endpoints = ?pre @ ?post @ []" by simp
  from visit_all_spec[OF E2 inv1 vis1 all1 card_ids] st2
  obtain new2 where inv2: "sort_inv endpoints st"
    and all2: "\<forall>x \<in> set (?pre @ ?post). ep_id x \<in> st_visited st"
    and n2: "st_sorted st = st_sorted st1 @ new2"
    by auto
  from ij have iE: "i < length endpoints" by simp
  then have a_pre: "?a \<in> set ?pre" by (auto simp: in_set_conv_nth intro!: exI[of _ i])
  have fa: "first_with_id endpoints ?a" using iE by (simp add: distinct_first[OF dist])
  have fb: "first_with_id endpoints ?b" using ij(2) by (simp add: distinct_first[OF dist])
  have a1: "?a \<in> set new1"
    using first_in_sorted[OF inv1 _ fa] all1 a_pre n1 by simp
  have b2: "?b \<in> set (st_sorted st)"
    using first_in_sorted[OF inv2 _ fb] all2 ij(2) by simp
  have b_not1: "?b \<notin> set new1"
  proof
    assume "?b \<in> set new1"
    with r1 obtain r where r: "r \<in> set ?pre" "(r, ?b) \<in> (first_depends_on endpoints)\<^sup>*" by blast
    from r(1) obtain k where "k < Suc i" "k < length endpoints" "r = endpoints ! k"
      by (auto simp: in_set_conv_nth)
    with r(2) unreach rel show False by auto
  qed
  with b2 n1 n2 have "?b \<in> set new2" by simp
  then obtain j2 where j2: "j2 < length new2" "new2 ! j2 = ?b" by (auto simp: in_set_conv_nth)
  from a1 obtain i1 where i1: "i1 < length new1" "new1 ! i1 = ?a" by (auto simp: in_set_conv_nth)
  have s: "out = new1 @ new2" using out n1 n2 by simp
  have "i1 < length new1 + j2" using i1(1) by simp
  moreover have "length new1 + j2 < length out" using j2(1) s by simp
  moreover have "out ! i1 = ?a" using i1 s by (simp add: nth_append)
  moreover have "out ! (length new1 + j2) = ?b" using j2 s by (simp add: nth_append)
  ultimately show ?thesis by blast
qed

theorem C9_order_preserved_witness:
  "\<exists>i' j'. i' < j'
     \<and> j' < length [example_endpoint ''C'' [], example_endpoint ''A'' [''C''], example_endpoint ''B'' []]
     \<and> [example_endpoint ''C'' [], example_endpoint ''A'' [''C''], example_endpoint ''B'' []] ! i'
         = example_endpoint ''A'' [''C'']
     \<and> [example_endpoint ''C'' [], example_endpoint ''A'' [''C''], example_endpoint ''B'' []] ! j'
         = example_endpoint ''B'' []"
proof -
  let ?A = "example_endpoint ''A'' [''C'']" and ?B = "example_endpoint ''B'' []"
    and ?C = "example_endpoint ''C'' []"
  let ?E = "[?A, ?B, ?C]"
  have d: "distinct (map ep_id ?E)" by (simp add: example_endpoint_def)
  have edgeA: "(?A, x) \<in> depends_on ?E \<Longrightarrow> x = ?C" for x
    by (simp add: depends_on_def dependencies_def dependency_def List.map_filter_simps
        example_endpoint_def example_connection_def)
  have noC: "(?C, x) \<notin> depends_on ?E" for x
    by (simp add: depends_on_def dependencies_def List.map_filter_simps example_endpoint_def)
  have neq: "?A \<noteq> ?B" "?C \<noteq> ?B" by (simp_all add: example_endpoint_def)
  have "(?C, ?B) \<notin> (depends_on ?E)\<^sup>*"
    using noC neq by (auto elim: converse_rtranclE)
  then have "(?A, ?B) \<notin> (depends_on ?E)\<^sup>*"
    using edgeA neq by (auto elim: converse_rtranclE)
  then have un: "\<forall>k\<le>0. (?E ! k, ?E ! 1) \<notin> (depends_on ?E)\<^sup>*" by simp
  from C9_order_preserved[OF d sort_example_unstable _ _ un] show ?thesis by simp
qed

end
